theory Spec2Isabelle
  imports Main
begin

section \<open>JavaScript strings\<close>

text \<open>
  A JavaScript string is modelled as a \<^typ>\<open>string\<close>: one \<^typ>\<open>char\<close> per code unit,
  which covers the code units below 256. Tag names, attribute names, CSS property names,
  class names and URL components (host names are punycoded, path names percent-encoded)
  are ASCII; text content is covered as far as it stays in that range.
\<close>

text \<open>
  White space as \<open>String.prototype.trim\<close> and the regular expression class \<open>\s\<close> see it:
  TAB, LF, VT, FF, CR, SPACE and NO-BREAK SPACE are the white-space code units below 256.
\<close>

definition isSpace :: "char \<Rightarrow> bool" where
  "isSpace c = (c \<in> set [CHR 0x09, CHR 0x0A, CHR 0x0B, CHR 0x0C, CHR 0x0D, CHR '' '', CHR 0xA0])"

text \<open>\<open>s.trim()\<close>\<close>

definition trim :: "string \<Rightarrow> string" where
  "trim s = rev (dropWhile isSpace (rev (dropWhile isSpace s)))"

text \<open>\<open>s.toLowerCase()\<close> and \<open>s.toUpperCase()\<close> on ASCII letters.\<close>

definition toLowerChar :: "char \<Rightarrow> char" where
  "toLowerChar c =
     (case map_of (zip ''ABCDEFGHIJKLMNOPQRSTUVWXYZ'' ''abcdefghijklmnopqrstuvwxyz'') c of
        None \<Rightarrow> c | Some d \<Rightarrow> d)"

definition toUpperChar :: "char \<Rightarrow> char" where
  "toUpperChar c =
     (case map_of (zip ''abcdefghijklmnopqrstuvwxyz'' ''ABCDEFGHIJKLMNOPQRSTUVWXYZ'') c of
        None \<Rightarrow> c | Some d \<Rightarrow> d)"

definition toLowerCase :: "string \<Rightarrow> string" where
  "toLowerCase s = map toLowerChar s"

definition isLowerAZ :: "char \<Rightarrow> bool" where
  "isLowerAZ c = (c \<in> set ''abcdefghijklmnopqrstuvwxyz'')"

definition isDigit :: "char \<Rightarrow> bool" where
  "isDigit c = (c \<in> set ''0123456789'')"

text \<open>\<open>s.startsWith(p)\<close>\<close>

definition startsWith :: "string \<Rightarrow> string \<Rightarrow> bool" where
  "startsWith s p = (take (length p) s = p)"

text \<open>
  Splitting at every character of a class: \<open>splitBy\<close> returns at least one segment, also
  for the empty string. \<open>s.split(c)\<close> for a one-character separator is \<open>splitOn c s\<close>.
\<close>

fun splitBy :: "(char \<Rightarrow> bool) \<Rightarrow> string \<Rightarrow> string list" where
  "splitBy isSep [] = [[]]"
| "splitBy isSep (c # cs) =
     (if isSep c then [] # splitBy isSep cs
      else (case splitBy isSep cs of
              [] \<Rightarrow> [[c]]
            | seg # segs \<Rightarrow> (c # seg) # segs))"

definition splitOn :: "char \<Rightarrow> string \<Rightarrow> string list" where
  "splitOn sep s = splitBy (\<lambda>c. c = sep) s"

text \<open>\<open>xs[i]\<close> on an array: \<open>undefined\<close> (here \<open>None\<close>) out of range.\<close>

fun at :: "'a list \<Rightarrow> nat \<Rightarrow> 'a option" where
  "at [] i = None"
| "at (x # xs) 0 = Some x"
| "at (x # xs) (Suc i) = at xs i"

text \<open>\<open>/p/.test(s)\<close> for a literal pattern \<open>p\<close>: \<open>p\<close> occurs somewhere in \<open>s\<close>.\<close>

fun containsSub :: "string \<Rightarrow> string \<Rightarrow> bool" where
  "containsSub p [] = (p = [])"
| "containsSub p (c # cs) = (startsWith (c # cs) p \<or> containsSub p cs)"

text \<open>
  \<open>prop.replace(/-([a-z])/g, (_, c) => c.toUpperCase())\<close>, the kebab-case to camelCase
  conversion of \<open>getAppliedStyles\<close> and \<open>handleInlineStyles\<close>: scanning from the left, a
  hyphen followed by a lower-case letter is replaced by the upper-case letter.
\<close>

fun camel :: "string \<Rightarrow> string" where
  "camel (a # b # cs) =
     (if a = CHR ''-'' \<and> isLowerAZ b then toUpperChar b # camel cs else a # camel (b # cs))"
| "camel cs = cs"

text \<open>
  \<open>obj[key] = value\<close> on an object created by \<open>{}\<close>, for a value that is a string. The
  object gets an own property \<open>key\<close>, or its own property \<open>key\<close> gets the new value. The
  key \<open>__proto__\<close> is the exception: the assignment reaches the setter that
  \<open>Object.prototype\<close> defines for it, which ignores a value that is neither an object nor
  \<open>null\<close>, and the object gets no property. \<open>store\<close> is the assignment on an object that is
  read by key, \<open>assign\<close> the assignment on an object whose key order is read later
  (\<open>Object.entries\<close>): an existing key keeps its place, a new key goes last.
\<close>

definition store :: "(string \<rightharpoonup> 'v) \<Rightarrow> string \<Rightarrow> 'v \<Rightarrow> (string \<rightharpoonup> 'v)" where
  "store obj key v = (if key = ''__proto__'' then obj else obj(key \<mapsto> v))"

fun ownProperty :: "string \<Rightarrow> 'v \<Rightarrow> (string \<times> 'v) list \<Rightarrow> (string \<times> 'v) list" where
  "ownProperty k v [] = [(k, v)]"
| "ownProperty k v ((k', v') # kvs) =
     (if k' = k then (k, v) # kvs else (k', v') # ownProperty k v kvs)"

definition assign :: "string \<Rightarrow> 'v \<Rightarrow> (string \<times> 'v) list \<Rightarrow> (string \<times> 'v) list" where
  "assign k v kvs = (if k = ''__proto__'' then kvs else ownProperty k v kvs)"

text \<open>\<open>text.replace(/\.{3,}$/, '')\<close>: a trailing run of three or more dots is removed.\<close>

definition stripTrailingDots :: "string \<Rightarrow> string" where
  "stripTrailingDots s =
     (let dots = takeWhile (\<lambda>c. c = CHR ''.'') (rev s)
      in if 3 \<le> length dots then rev (dropWhile (\<lambda>c. c = CHR ''.'') (rev s)) else s)"

section \<open>The route of a page, for the name of the downloaded file\<close>

text \<open>
  \<open>getPageRoute\<close> reads three components of \<open>new URL(window.location.href)\<close>. The URL
  parser is the browser's; the model takes what it returns. \<open>port\<close> is \<open>''''\<close> for the
  scheme's default port.
\<close>

record url =
  hostname :: string
  port :: string
  pathname :: string

text \<open>\<open>pathname.replace(/^\/+|\/+$/g, '')\<close>: the leading and the trailing slashes go.\<close>

definition stripSlashes :: "string \<Rightarrow> string" where
  "stripSlashes s =
     rev (dropWhile (\<lambda>c. c = CHR ''/'') (rev (dropWhile (\<lambda>c. c = CHR ''/'') s)))"

text \<open>\<open>fullRoute.replace(/[_\s]+/g, '_')\<close>: each run of underscores and white space becomes one underscore.\<close>

definition isSeparator :: "char \<Rightarrow> bool" where
  "isSeparator c = (c = CHR ''_'' \<or> isSpace c)"

function collapseSeparators :: "string \<Rightarrow> string" where
  "collapseSeparators [] = []"
| "collapseSeparators (c # cs) =
     (if isSeparator c then CHR ''_'' # collapseSeparators (dropWhile isSeparator cs)
      else c # collapseSeparators cs)"
  by pat_completeness auto
termination
  by (relation "measure length") (auto simp: length_dropWhile_le less_Suc_eq_le)

text \<open>\<open>cleanRoute.replace(/[^a-zA-Z0-9_\-]/g, '')\<close>\<close>

definition isRouteChar :: "char \<Rightarrow> bool" where
  "isRouteChar c =
     (c \<in> set ''abcdefghijklmnopqrstuvwxyzABCDEFGHIJKLMNOPQRSTUVWXYZ0123456789_-'')"

definition removeSpecial :: "string \<Rightarrow> string" where
  "removeSpecial s = filter isRouteChar s"

text \<open>\<open>/^\d/.test(cleanRoute)\<close>\<close>

definition startsWithDigit :: "string \<Rightarrow> bool" where
  "startsWithDigit s = (case s of [] \<Rightarrow> False | c # cs \<Rightarrow> isDigit c)"

text \<open>
  \<open>getPageRoute()\<close>. The argument is the parsed \<open>window.location.href\<close>; \<open>None\<close> stands for
  an exception inside the \<open>try\<close> block, which the \<open>catch\<close> turns into \<open>'page-conversion'\<close>.
\<close>

definition getPageRoute :: "url option \<Rightarrow> string" where
  "getPageRoute loc =
     (case loc of
        None \<Rightarrow> ''page-conversion''
      | Some urlObj \<Rightarrow>
          (let hostPrefix = (if port urlObj \<noteq> [] then hostname urlObj @ ''_'' @ port urlObj
                             else hostname urlObj);
               stripped = stripSlashes (pathname urlObj);
               path = (if stripped = [] then ''root'' else stripped);
               fullRoute = hostPrefix @ ''_'' @ path;
               cleanRoute = removeSpecial (collapseSeparators fullRoute)
           in if startsWithDigit cleanRoute then ''page_'' @ cleanRoute else cleanRoute))"

text \<open>The pages of the examples: \<open>https://example.com:8080/blog/post-1/\<close>, \<open>https://example.com/\<close>,
  \<open>http://127.0.0.1:3000/\<close> and \<open>https://example.com/docs/v1.2/intro.html\<close>.\<close>

definition blogPostUrl :: url where
  "blogPostUrl = \<lparr>hostname = ''example.com'', port = ''8080'', pathname = ''/blog/post-1/''\<rparr>"

definition rootUrl :: url where
  "rootUrl = \<lparr>hostname = ''example.com'', port = '''', pathname = ''/''\<rparr>"

definition loopbackUrl :: url where
  "loopbackUrl = \<lparr>hostname = ''127.0.0.1'', port = ''3000'', pathname = ''/''\<rparr>"

definition docsUrl :: url where
  "docsUrl = \<lparr>hostname = ''example.com'', port = '''', pathname = ''/docs/v1.2/intro.html''\<rparr>"

section \<open>The rendered document\<close>

text \<open>
  The converter reads a live DOM. An element of the model carries what the converter reads
  from it: its \<open>tagName\<close> as the DOM reports it (upper case for HTML elements, as written
  for \<open>svg\<close>), its attributes in document order, the \<open>CSSStyleDeclaration\<close> that
  \<open>getComputedStyle\<close> returns for it and for its parent element (\<open>None\<close> when it has no
  parent element), two properties of its inline \<open>style\<close> object, and its child nodes.
  A \<open>CSSStyleDeclaration\<close> is the list of property names its iteration yields and its
  \<open>getPropertyValue\<close>, which also answers for shorthand properties the iteration does not
  list; the camel-case getters (\<open>cs.flexDirection\<close>) read the same values.
\<close>

record style_decl =
  propertyNames :: "string list"
  getPropertyValue :: "string \<Rightarrow> string"

record element_data =
  tagName :: string
  attributes :: "(string \<times> string) list"
  computedStyle :: style_decl
  parentComputedStyle :: "style_decl option"
  styleOverflow :: string
  styleTextOverflow :: string

text \<open>
  A child node is an element, a text node (\<open>nodeType === Node.TEXT_NODE\<close>) with its data, or
  a node of another type (a comment, say) with its \<open>nodeName\<close>.
\<close>

datatype element = Element element_data "child list"
  and child = ElementChild element | TextChild string | OtherChild string

fun elementData :: "element \<Rightarrow> element_data" where
  "elementData (Element d cs) = d"

fun childNodes :: "element \<Rightarrow> child list" where
  "childNodes (Element d cs) = cs"

fun nodeName :: "child \<Rightarrow> string" where
  "nodeName (ElementChild e) = tagName (elementData e)"
| "nodeName (TextChild t) = ''#text''"
| "nodeName (OtherChild n) = n"

fun isTextNode :: "child \<Rightarrow> bool" where
  "isTextNode (TextChild t) = True"
| "isTextNode c = False"

text \<open>\<open>element.children\<close>: the child nodes that are elements.\<close>

fun asElement :: "child \<Rightarrow> element option" where
  "asElement (ElementChild e) = Some e"
| "asElement c = None"

definition children :: "element \<Rightarrow> element list" where
  "children e = List.map_filter asElement (childNodes e)"

text \<open>\<open>element.textContent\<close>: the data of all text nodes below the element, in document order.\<close>

fun textContent :: "element \<Rightarrow> string"
  and childTextContent :: "child \<Rightarrow> string" where
  "textContent (Element d cs) = concat (map childTextContent cs)"
| "childTextContent (ElementChild e) = textContent e"
| "childTextContent (TextChild t) = t"
| "childTextContent (OtherChild n) = []"

text \<open>\<open>element.getElementsByTagName(name)\<close>: the descendants with that tag name, in document order.\<close>

fun getElementsByTagName :: "string \<Rightarrow> element \<Rightarrow> element list"
  and childElementsByTagName :: "string \<Rightarrow> child \<Rightarrow> element list" where
  "getElementsByTagName name (Element d cs) = concat (map (childElementsByTagName name) cs)"
| "childElementsByTagName name (ElementChild e) =
     (if toLowerCase (tagName (elementData e)) = name then [e] else []) @ getElementsByTagName name e"
| "childElementsByTagName name (TextChild t) = []"
| "childElementsByTagName name (OtherChild n) = []"

text \<open>\<open>element.getAttribute(name)\<close>: \<open>null\<close> (here \<open>None\<close>) when the attribute is absent.\<close>

definition getAttribute :: "element \<Rightarrow> string \<Rightarrow> string option" where
  "getAttribute e name = map_of (attributes (elementData e)) name"

text \<open>\<open>element.className\<close> of an HTML element: the \<open>class\<close> attribute, \<open>''''\<close> when absent.\<close>

definition className :: "element \<Rightarrow> string" where
  "className e = (case getAttribute e ''class'' of None \<Rightarrow> [] | Some c \<Rightarrow> c)"

text \<open>
  \<open>Array.from(element.classList)\<close>: the tokens of the \<open>class\<close> attribute, split at ASCII
  white space, each token once, at the place of its first occurrence.
\<close>

definition isAsciiWhitespace :: "char \<Rightarrow> bool" where
  "isAsciiWhitespace c = (c \<in> set [CHR 0x09, CHR 0x0A, CHR 0x0C, CHR 0x0D, CHR '' ''])"

definition classList :: "element \<Rightarrow> string list" where
  "classList e =
     rev (remdups (rev (filter (\<lambda>t. t \<noteq> []) (splitBy isAsciiWhitespace (className e)))))"

section \<open>The host page\<close>

text \<open>
  What the browser supplies beyond the element tree. \<open>baselineFrame\<close> is the offscreen
  \<open>iframe\<close> of \<open>getAppliedStyles\<close> with its cache: for a tag name, the \<open>getPropertyValue\<close>
  of the style object computed for a pristine element of that tag; \<open>None\<close> when creating
  the frame or its document raises an exception. \<open>absoluteUrl\<close> is
  \<open>new URL(element.src, window.location.href).href\<close>, \<open>None\<close> when the constructor throws.
  \<open>svgDataUri\<close> is the result of \<open>convertSVGToBase64\<close> (the serialized markup, base64
  encoded, or \<open>''''\<close> when the encoding fails), and \<open>innerHTML\<close> the serialized content.
\<close>

record env =
  baselineFrame :: "(string \<Rightarrow> string \<Rightarrow> string) option"
  absoluteUrl :: "element \<Rightarrow> string option"
  svgDataUri :: "element \<Rightarrow> string"
  innerHTML :: "element \<Rightarrow> string"

text \<open>An exception that leaves a function of the converter.\<close>

datatype error = BaselineFrameUnavailable | VideoWithoutSource | InvalidImageUrl

section \<open>The classifier\<close>

text \<open>\<open>browserUtils.getComponentName(element)\<close>\<close>

definition hasOnlyTextContent :: "element \<Rightarrow> bool" where
  "hasOnlyTextContent e = (length (children e) = 0 \<and> trim (textContent e) \<noteq> [])"

definition getComponentName :: "element \<Rightarrow> string" where
  "getComponentName e =
     (let htmlTag = toLowerCase (tagName (elementData e)) in
      if htmlTag \<in> set [''h1'', ''h2'', ''h3'', ''h4'', ''h5'', ''h6''] then ''header''
      else if htmlTag = ''a'' then
        (if length (children e) > 0 then ''link-container'' else ''link'')
      else if htmlTag = ''video'' then ''video''
      else if htmlTag = ''section'' then ''section''
      else if htmlTag \<in> set [''p'', ''span'', ''label''] then ''text''
      else if htmlTag = ''button'' then ''button''
      else if htmlTag \<in> set [''img'', ''svg''] then ''image''
      else if htmlTag = ''div'' then
        (if hasOnlyTextContent e then ''text''
         else (let computedStyles = computedStyle (elementData e) in
               if getPropertyValue computedStyles ''display'' = ''flex'' then
                 (if getPropertyValue computedStyles ''flex-direction'' = ''column''
                  then ''vstack'' else ''hstack'')
               else if getPropertyValue computedStyles ''display'' = ''grid'' then ''box''
               else ''box''))
      else (if hasOnlyTextContent e then ''text'' else ''box''))"

section \<open>Style resolution\<close>

text \<open>The constants \<open>SUPPORTED_PROPS\<close>, \<open>INHERITABLE\<close> and \<open>STYLE_MODE\<close>.\<close>

definition SUPPORTED_PROPS :: "string list" where
  "SUPPORTED_PROPS =
     [''display'', ''position'', ''top'', ''right'', ''bottom'', ''left'', ''z-index'',
      ''width'', ''height'', ''min-width'', ''min-height'', ''max-width'', ''max-height'',
      ''aspect-ratio'', ''overflow'', ''overflow-x'', ''overflow-y'',
      ''margin-top'', ''margin-right'', ''margin-bottom'', ''margin-left'',
      ''padding-top'', ''padding-right'', ''padding-bottom'', ''padding-left'',
      ''background-color'', ''background-image'', ''background-repeat'',
      ''background-size'', ''background-position'', ''background-clip'', ''background-origin'',
      ''background-attachment'', ''background-blend-mode'',
      ''border-top-width'', ''border-right-width'', ''border-bottom-width'', ''border-left-width'',
      ''border-top-style'', ''border-right-style'', ''border-bottom-style'', ''border-left-style'',
      ''border-top-color'', ''border-right-color'', ''border-bottom-color'', ''border-left-color'',
      ''border-top-left-radius'', ''border-top-right-radius'', ''border-bottom-right-radius'',
      ''border-bottom-left-radius'', ''border-image'',
      ''box-shadow'', ''opacity'', ''transform'', ''filter'', ''backdrop-filter'',
      ''mix-blend-mode'', ''clip-path'', ''mask'',
      ''color'', ''font-family'', ''font-size'', ''font-weight'', ''font-style'', ''line-height'',
      ''letter-spacing'', ''text-transform'', ''text-decoration-line'', ''text-decoration-color'',
      ''text-decoration-thickness'', ''text-underline-offset'',
      ''text-align'', ''white-space'', ''text-overflow'', ''overflow-wrap'', ''word-break'',
      ''flex'', ''flex-grow'', ''flex-shrink'', ''flex-basis'', ''flex-direction'', ''flex-wrap'',
      ''align-items'', ''justify-content'', ''align-content'', ''align-self'', ''gap'',
      ''grid-template-columns'', ''grid-template-rows'', ''grid-auto-flow'', ''grid-auto-rows'',
      ''grid-auto-columns'', ''grid-column'', ''grid-row'', ''row-gap'', ''column-gap'',
      ''place-items'', ''place-content'', ''justify-items'', ''justify-self'',
      ''list-style'', ''list-style-type'', ''list-style-position'', ''list-style-image'',
      ''table-layout'', ''border-collapse'', ''border-spacing'',
      ''visibility'', ''pointer-events'', ''user-select'', ''cursor'',
      ''object-fit'', ''object-position'']"

definition INHERITABLE :: "string list" where
  "INHERITABLE =
     [''color'', ''font'', ''font-family'', ''font-feature-settings'', ''font-kerning'',
      ''font-language-override'', ''font-size'', ''font-size-adjust'', ''font-stretch'',
      ''font-style'', ''font-synthesis'', ''font-variant'', ''font-variant-caps'',
      ''font-variant-ligatures'', ''font-variant-numeric'', ''font-variant-position'',
      ''font-weight'', ''letter-spacing'', ''line-height'', ''text-align'', ''text-align-last'',
      ''text-indent'', ''text-justify'', ''text-shadow'', ''text-transform'', ''white-space'',
      ''word-break'', ''word-spacing'', ''word-wrap'',
      ''direction'', ''unicode-bidi'', ''writing-mode'',
      ''list-style'', ''list-style-image'', ''list-style-position'', ''list-style-type'',
      ''cursor'', ''quotes'', ''tab-size'', ''visibility'', ''pointer-events'']"

definition STYLE_MODE :: string where
  "STYLE_MODE = ''uaDiffPlusInherited''"

text \<open>
  The \<open>switch (mode)\<close> of \<open>getAppliedStyles\<close> for one property \<open>prop\<close> with the non-empty
  computed value \<open>val\<close>: \<open>ps\<close> is the parent's computed style and \<open>ua\<close> the
  \<open>getPropertyValue\<close> of the baseline of the element's tag. Any mode other than the first
  three takes the \<open>default\<close> branch, which is the branch of \<open>'uaDiffPlusInherited'\<close>.
\<close>

definition includeProperty ::
  "string \<Rightarrow> style_decl option \<Rightarrow> (string \<Rightarrow> string) \<Rightarrow> string \<Rightarrow> string \<Rightarrow> bool" where
  "includeProperty mode ps ua prop val =
     (if mode = ''all'' then True
      else if mode = ''inheritedOnly'' then
        (case ps of
           None \<Rightarrow> False
         | Some p \<Rightarrow> if prop \<in> set INHERITABLE then val = getPropertyValue p prop else False)
      else if mode = ''uaDiff'' then val \<noteq> ua prop
      else (let diffUA = (val \<noteq> ua prop);
                inherited = (case ps of
                               None \<Rightarrow> False
                             | Some p \<Rightarrow> prop \<in> set INHERITABLE \<and> val = getPropertyValue p prop)
            in diffUA \<or> inherited))"

text \<open>
  One round of the loop \<open>for (const prop of cs)\<close>: whether the round reaches the assignment
  \<open>outKebab[prop] = val\<close>. An empty whitelist filters nothing.
\<close>

definition propertyKept ::
  "string \<Rightarrow> string list \<Rightarrow> style_decl \<Rightarrow> style_decl option \<Rightarrow> (string \<Rightarrow> string) \<Rightarrow> string \<Rightarrow> bool" where
  "propertyKept mode whitelist cs ps ua prop =
     (let val = getPropertyValue cs prop in
      if val = [] \<or> val = ''initial'' \<or> val = ''unset'' then False
      else if \<not> includeProperty mode ps ua prop val then False
      else if whitelist \<noteq> [] \<and> prop \<notin> set whitelist then False
      else True)"

definition collectStep ::
  "string \<Rightarrow> string list \<Rightarrow> style_decl \<Rightarrow> style_decl option \<Rightarrow> (string \<Rightarrow> string)
   \<Rightarrow> (string \<times> string) list \<Rightarrow> string \<Rightarrow> (string \<times> string) list" where
  "collectStep mode whitelist cs ps ua outKebab prop =
     (if propertyKept mode whitelist cs ps ua prop
      then assign prop (getPropertyValue cs prop) outKebab
      else outKebab)"

definition collectStyles ::
  "string \<Rightarrow> string list \<Rightarrow> style_decl \<Rightarrow> style_decl option \<Rightarrow> (string \<Rightarrow> string)
   \<Rightarrow> (string \<times> string) list" where
  "collectStyles mode whitelist cs ps ua =
     foldl (collectStep mode whitelist cs ps ua) [] (propertyNames cs)"

text \<open>\<open>for (const [k,v] of Object.entries(outKebab)) outCamel[camel(k)] = v\<close>\<close>

definition toCamelObject :: "(string \<times> string) list \<Rightarrow> (string \<rightharpoonup> string)" where
  "toCamelObject outKebab = foldl (\<lambda>outCamel (k, v). store outCamel (camel k) v) Map.empty outKebab"

text \<open>\<open>/(btn|button|cta)/i.test(cls)\<close>\<close>

definition isButtonLikeClass :: "string \<Rightarrow> bool" where
  "isButtonLikeClass cls =
     (containsSub ''btn'' (toLowerCase cls) \<or> containsSub ''button'' (toLowerCase cls)
      \<or> containsSub ''cta'' (toLowerCase cls))"

text \<open>A JavaScript value used as a condition, for an own property that holds a string.\<close>

definition truthy :: "string option \<Rightarrow> bool" where
  "truthy v = (case v of None \<Rightarrow> False | Some s \<Rightarrow> s \<noteq> [])"

text \<open>
  \<open>getAppliedStyles(element, {mode, whitelist})\<close>. Creating the baseline frame is the first
  statement and is not guarded: when it fails the exception leaves the function. The
  result object is a map from camel-case property names to values.
\<close>

definition getAppliedStyles ::
  "env \<Rightarrow> element \<Rightarrow> string \<Rightarrow> string list \<Rightarrow> error + (string \<rightharpoonup> string)" where
  "getAppliedStyles host element mode whitelist =
     (case baselineFrame host of
        None \<Rightarrow> Inl BaselineFrameUnavailable
      | Some baseline \<Rightarrow>
          (let cs = computedStyle (elementData element);
               ps = parentComputedStyle (elementData element);
               ua = baseline (tagName (elementData element));
               outCamel = toCamelObject (collectStyles mode whitelist cs ps ua)
           in Inr (if tagName (elementData element) = ''A''
                      \<and> isButtonLikeClass (className element)
                      \<and> \<not> truthy (outCamel ''display'')
                   then outCamel(''display'' \<mapsto> ''inline-block'')
                   else outCamel)))"

text \<open>
  \<open>handleInlineStyles(element, designTokens)\<close>: the body of the \<open>forEach\<close> is
  \<open>inlineDeclaration\<close>. The destructuring \<open>[property, value]\<close> takes the first two segments
  of \<open>declaration.split(':')\<close>; a missing second segment is \<open>undefined\<close>. The assignment
  \<open>styles[camelProperty] = value\<close> stores nothing for the property \<open>__proto__\<close>.
\<close>

definition inlineDeclaration :: "(string \<rightharpoonup> string) \<Rightarrow> string \<Rightarrow> (string \<rightharpoonup> string)" where
  "inlineDeclaration styles declaration =
     (case map trim (splitOn (CHR '':'') declaration) of
        property # value # rest \<Rightarrow>
          if property \<noteq> [] \<and> value \<noteq> [] then store styles (camel property) value else styles
      | _ \<Rightarrow> styles)"

definition handleInlineStyles :: "element \<Rightarrow> (string \<rightharpoonup> string)" where
  "handleInlineStyles element =
     (case getAttribute element ''style'' of
        None \<Rightarrow> Map.empty
      | Some style \<Rightarrow>
          if style = [] then Map.empty
          else foldl inlineDeclaration Map.empty (splitOn (CHR '';'') style))"

text \<open>
  A value of a style map: a string, or the number \<open>Number(s)/100\<close> that
  \<open>handleAdditionalStyles\<close> computes for a \<open>bg-opacity-N\<close> class, kept as the segment \<open>s\<close> it
  is computed from (\<open>None\<close> for \<open>undefined\<close>).
\<close>

datatype style_value = Str string | NumberDiv100 "string option"

record responsive_styles =
  defaultStyles :: "string \<rightharpoonup> style_value"
  tabletStyles :: "string \<rightharpoonup> style_value"
  mobileStyles :: "string \<rightharpoonup> style_value"

definition noStyles :: responsive_styles where
  "noStyles = \<lparr>defaultStyles = Map.empty, tabletStyles = Map.empty, mobileStyles = Map.empty\<rparr>"

text \<open>\<open>handleAdditionalStyles(element, classList)\<close>; the logging is left out.\<close>

definition divClassStyle ::
  "(string \<rightharpoonup> style_value) \<Rightarrow> string \<Rightarrow> (string \<rightharpoonup> style_value)" where
  "divClassStyle additionalStyles cn =
     (let withOpacity =
            (if startsWith cn ''bg-opacity''
             then additionalStyles(''opacity'' \<mapsto> NumberDiv100 (at (splitOn (CHR ''-'') cn) 2))
             else additionalStyles)
      in if startsWith cn ''border'' then withOpacity(''border'' \<mapsto> Str ''0 solid'')
         else withOpacity)"

definition listItemStyles ::
  "style_decl \<Rightarrow> (string \<rightharpoonup> style_value) \<Rightarrow> (string \<rightharpoonup> style_value)" where
  "listItemStyles cs additionalStyles =
     additionalStyles
       (''listStyleType'' \<mapsto> Str (getPropertyValue cs ''list-style-type''),
        ''listStylePosition'' \<mapsto> Str (getPropertyValue cs ''list-style-position''),
        ''listStyleImage'' \<mapsto> Str (getPropertyValue cs ''list-style-image''),
        ''marginTop'' \<mapsto> Str (getPropertyValue cs ''margin-top''),
        ''marginBottom'' \<mapsto> Str (getPropertyValue cs ''margin-bottom''),
        ''paddingLeft'' \<mapsto> Str (getPropertyValue cs ''padding-left''),
        ''paddingRight'' \<mapsto> Str (getPropertyValue cs ''padding-right''))"

definition handleAdditionalStyles :: "element \<Rightarrow> string list \<Rightarrow> responsive_styles" where
  "handleAdditionalStyles element classes =
     (let base = (if ''border'' \<in> set classes then [''borderStyle'' \<mapsto> Str ''solid'']
                  else Map.empty);
          htmlTag = toLowerCase (tagName (elementData element));
          cs = computedStyle (elementData element);
          additionalStyles =
            (if htmlTag = ''img'' then base(''maxWidth'' \<mapsto> Str ''100%'')
             else if htmlTag = ''button'' then
               (let b = base(''backgroundColor'' \<mapsto> Str ''transparent'',
                             ''backgroundImage'' \<mapsto> Str ''none'')
                in if ''border'' \<notin> set classes then b(''border'' \<mapsto> Str ''unset'') else b)
             else if htmlTag = ''div'' then foldl divClassStyle base classes
             else if htmlTag = ''p'' then base(''display'' \<mapsto> Str ''inline-block'')
             else if htmlTag \<in> set [''h1'', ''h2'', ''h3'', ''h4'', ''h5'', ''h6'']
               then base(''display'' \<mapsto> Str ''block'')
             else if htmlTag \<in> set [''ul'', ''ol'', ''nav''] then
               listItemStyles cs
                 (if getPropertyValue cs ''display'' = ''flex'' then
                    base(''display'' \<mapsto> Str ''flex'',
                         ''flexDirection'' \<mapsto> Str (getPropertyValue cs ''flex-direction''),
                         ''justifyContent'' \<mapsto> Str (getPropertyValue cs ''justify-content''),
                         ''alignItems'' \<mapsto> Str (getPropertyValue cs ''align-items''),
                         ''gap'' \<mapsto> Str (getPropertyValue cs ''gap''))
                  else if getPropertyValue cs ''display'' = ''grid'' then
                    base(''display'' \<mapsto> Str ''grid'',
                         ''gridTemplateColumns'' \<mapsto> Str (getPropertyValue cs ''grid-template-columns''),
                         ''gridTemplateRows'' \<mapsto> Str (getPropertyValue cs ''grid-template-rows''),
                         ''gap'' \<mapsto> Str (getPropertyValue cs ''gap''))
                  else base(''display'' \<mapsto> Str (getPropertyValue cs ''display'')))
             else if htmlTag = ''li'' then
               (listItemStyles cs (base(''display'' \<mapsto> Str (getPropertyValue cs ''display''))))
                 (''letterSpacing'' \<mapsto> Str (getPropertyValue cs ''letter-spacing''),
                  ''textTransform'' \<mapsto> Str (getPropertyValue cs ''text-transform''))
             else base)
      in \<lparr>defaultStyles = additionalStyles, tabletStyles = Map.empty, mobileStyles = Map.empty\<rparr>)"

text \<open>
  \<open>getElementResponsiveStyles(element, designTokens)\<close>: the \<open>try\<close> block merges the three
  layers, a later layer winning; the \<open>catch\<close> returns three empty maps.
\<close>

definition getElementResponsiveStyles :: "env \<Rightarrow> element \<Rightarrow> responsive_styles" where
  "getElementResponsiveStyles host element =
     (case getAppliedStyles host element STYLE_MODE SUPPORTED_PROPS of
        Inl err \<Rightarrow> noStyles
      | Inr stylesDefault \<Rightarrow>
          (let inlineStyles = handleInlineStyles element;
               additional = handleAdditionalStyles element (classList element);
               mergedDefault = (map_option Str \<circ> stylesDefault) ++ defaultStyles additional
                                 ++ (map_option Str \<circ> inlineStyles)
           in \<lparr>defaultStyles = mergedDefault, tabletStyles = Map.empty, mobileStyles = Map.empty\<rparr>))"

section \<open>The emitted tree\<close>

text \<open>
  A property descriptor of a node: \<open>{type: "string", staticString}\<close>,
  \<open>{type: "string", staticValue}\<close>, \<open>{type: "imageUrl", staticString}\<close>,
  \<open>{type: "slot", slot}\<close>, or any other value a component mapping supplies. A string read
  with \<open>getAttribute\<close> may be \<open>null\<close> (\<open>None\<close>).
\<close>

datatype prop_descriptor =
    StringProp "string option"
  | StringValueProp "string option"
  | ImageUrlProp string
  | SlotProp nat
  | OtherProp string

text \<open>
  A node: \<open>type\<close>, \<open>uid\<close>, \<open>attrs\<close>, \<open>props\<close>, \<open>slots\<close> (slot id and child list, in insertion
  order) and \<open>styles.default.responsiveStyles\<close>. The identifiers of \<open>generateUUID\<close>, random
  in the source, are the values of a counter that the converter threads through. The
  \<open>metadata\<close> bundle is left out: \<open>getElementMetadata\<close> and the \<open>linkInfo\<close>, \<open>formInfo\<close>,
  \<open>mediaInfo\<close> and \<open>componentMapping\<close> entries only describe the source element, catch
  their own exceptions, and are read by no branch of the converter.
\<close>

datatype node =
  Node (type: string) (uid: nat) (attrs: "string \<rightharpoonup> string option")
       (props: "string \<rightharpoonup> prop_descriptor") (slots: "(nat \<times> node list) list")
       (styles: responsive_styles)

section \<open>Component mappings\<close>

text \<open>
  An entry of \<open>componentMappings\<close>. \<open>variantProperties\<close> is an opaque value. A missing
  \<open>propMappings\<close> is the empty map: spreading either adds nothing.
\<close>

record node_id =
  nodeId :: string
  variantProperties :: string

record component_mapping =
  nodeIds :: "node_id list"
  codeComponentName :: string
  propMappings :: "string \<rightharpoonup> prop_descriptor"
  figmaComponentKey :: string

text \<open>\<open>componentMapping.nodeIds.find(node => node.nodeId === figmaNodeId)\<close>\<close>

definition findNodeId :: "string option \<Rightarrow> component_mapping \<Rightarrow> node_id option" where
  "findNodeId figmaNodeId componentMapping =
     find (\<lambda>node. Some (nodeId node) = figmaNodeId) (nodeIds componentMapping)"

text \<open>
  The \<open>componentMappings.forEach\<close> of \<open>convertHTMLToComposableJSON\<close>. The object \<open>component\<close>
  it builds copies \<open>codeComponentName\<close>, \<open>propMappings\<close> and \<open>figmaComponentKey\<close> from the
  entry and \<open>nodeId\<close> and \<open>variantProperties\<close> from the matched id: it is the pair of the two.
  \<open>None\<close> is the initial \<open>{}\<close>.
\<close>

definition selectStep ::
  "string option \<Rightarrow> (component_mapping \<times> node_id) option \<Rightarrow> component_mapping
   \<Rightarrow> (component_mapping \<times> node_id) option" where
  "selectStep figmaNodeId component componentMapping =
     (case findNodeId figmaNodeId componentMapping of
        None \<Rightarrow> component
      | Some matched \<Rightarrow> Some (componentMapping, matched))"

definition selectComponent ::
  "string option \<Rightarrow> component_mapping list \<Rightarrow> (component_mapping \<times> node_id) option" where
  "selectComponent figmaNodeId componentMappings =
     foldl (selectStep figmaNodeId) None componentMappings"

text \<open>\<open>if (component?.nodeId)\<close>: a component was selected and its \<open>nodeId\<close> is not empty.\<close>

definition appliedComponent ::
  "(component_mapping \<times> node_id) option \<Rightarrow> (component_mapping \<times> node_id) option" where
  "appliedComponent component =
     (case component of
        None \<Rightarrow> None
      | Some (componentMapping, matched) \<Rightarrow>
          if nodeId matched \<noteq> [] then Some (componentMapping, matched) else None)"

section \<open>The tree converter\<close>

definition MEDIA_TAGS :: "string list" where
  "MEDIA_TAGS = [''IMG'', ''VIDEO'']"

definition HTML_RTE_COMPONENTS :: "string list" where
  "HTML_RTE_COMPONENTS = [''richTextEditor'', ''htmlRte'']"

text \<open>
  \<open>getElementAttributes(element)\<close>: \<open>attrs[attr.name] = attr.value\<close> for every attribute other
  than \<open>class\<close> and \<open>style\<close>; an attribute named \<open>__proto__\<close> leaves no entry.
\<close>

definition getElementAttributes :: "element \<Rightarrow> (string \<rightharpoonup> string option)" where
  "getElementAttributes element =
     foldl (\<lambda>attrs (name, v). if name \<noteq> ''class'' \<and> name \<noteq> ''style'' then store attrs name (Some v)
                             else attrs)
       Map.empty (attributes (elementData element))"

text \<open>
  \<open>getFullTextContent(element)\<close>. With a truncation indicator the source sets four inline
  style properties, reads the text and restores the four properties; both branches return
  the trimmed \<open>element.textContent || element.innerText || ''\<close>. \<open>textContent\<close> does not depend
  on styles, and \<open>innerText\<close> is read only when \<open>textContent\<close> is empty, where it holds at
  most the line breaks and tabs of the layout, which \<open>trim\<close> removes.
\<close>

definition hasTruncation :: "element \<Rightarrow> bool" where
  "hasTruncation element =
     (''line-clamp-3'' \<in> set (classList element)
      \<or> ''line-clamp-2'' \<in> set (classList element)
      \<or> ''line-clamp-1'' \<in> set (classList element)
      \<or> styleTextOverflow (elementData element) = ''ellipsis''
      \<or> styleOverflow (elementData element) = ''hidden'')"

definition getFullTextContent :: "element \<Rightarrow> string" where
  "getFullTextContent element =
     (if hasTruncation element then (let fullText = textContent element in trim fullText)
      else trim (textContent element))"

text \<open>
  \<open>handleTextNode(textContent, elementJSON, previousValue)\<close>, on the \<open>props\<close> of the node it
  is given.
\<close>

definition handleTextNode :: "string \<Rightarrow> (string \<rightharpoonup> prop_descriptor) \<Rightarrow> string \<Rightarrow> (string \<rightharpoonup> prop_descriptor)" where
  "handleTextNode txt nodeProps previousValue =
     (if trim txt \<noteq> [] then
        (let cleanText = stripTrailingDots (trim txt) in
         if cleanText = ''...'' \<or> cleanText = [] then nodeProps
         else nodeProps(''text'' \<mapsto>
                StringProp (Some (if previousValue \<noteq> [] then previousValue @ '' '' @ cleanText
                                  else cleanText))))
      else nodeProps)"

text \<open>\<open>childJSON?.props?.text?.staticString\<close>, \<open>''''\<close> standing for \<open>undefined\<close> (both are falsy).\<close>

definition textStaticString :: "(string \<rightharpoonup> prop_descriptor) \<Rightarrow> string" where
  "textStaticString nodeProps =
     (case nodeProps ''text'' of
        Some (StringProp (Some s)) \<Rightarrow> s
      | _ \<Rightarrow> [])"

text \<open>\<open>handleButtonElement(textContent, elementJSON)\<close>\<close>

definition handleButtonElement :: "string \<Rightarrow> (string \<rightharpoonup> prop_descriptor) \<Rightarrow> (string \<rightharpoonup> prop_descriptor)" where
  "handleButtonElement txt nodeProps = nodeProps(''label'' \<mapsto> StringProp (Some txt))"

text \<open>\<open>handleLinkElement(element, elementJSON)\<close>\<close>

definition handleLinkElement :: "element \<Rightarrow> (string \<rightharpoonup> prop_descriptor) \<Rightarrow> (string \<rightharpoonup> prop_descriptor)" where
  "handleLinkElement element nodeProps =
     (if tagName (elementData element) \<noteq> ''A'' then nodeProps
      else (let href = getAttribute element ''href'';
                target = getAttribute element ''target'';
                rel = getAttribute element ''rel'';
                p1 = nodeProps(''href'' \<mapsto> StringProp href,
                               ''label'' \<mapsto> StringProp (Some (trim (textContent element))));
                p2 = (if truthy target then p1(''target'' \<mapsto> StringProp target) else p1)
            in if truthy rel then p2(''rel'' \<mapsto> StringProp rel) else p2))"

text \<open>\<open>handleImageElement(element, elementJSON)\<close>: \<open>new URL\<close> may throw.\<close>

definition handleImageElement ::
  "env \<Rightarrow> element \<Rightarrow> (string \<rightharpoonup> prop_descriptor) \<Rightarrow> error + (string \<rightharpoonup> prop_descriptor)" where
  "handleImageElement host element nodeProps =
     (if tagName (elementData element) \<noteq> ''IMG'' then Inr nodeProps
      else (case absoluteUrl host element of
              None \<Rightarrow> Inl InvalidImageUrl
            | Some absoluteSrc \<Rightarrow>
                Inr (nodeProps(''src'' \<mapsto> ImageUrlProp absoluteSrc,
                               ''alt'' \<mapsto> StringValueProp (getAttribute element ''alt'')))))"

text \<open>
  \<open>handleVideoElement(element, elementJSON)\<close>, on the \<open>attrs\<close> of the node: \<open>sources[0]\<close> is
  \<open>undefined\<close> when the video has no \<open>source\<close> descendant, and reading its attribute throws.
\<close>

definition handleVideoElement ::
  "element \<Rightarrow> (string \<rightharpoonup> string option) \<Rightarrow> error + (string \<rightharpoonup> string option)" where
  "handleVideoElement element nodeAttrs =
     (if tagName (elementData element) \<noteq> ''VIDEO'' then Inr nodeAttrs
      else (case getElementsByTagName ''source'' element of
              [] \<Rightarrow> Inl VideoWithoutSource
            | source0 # others \<Rightarrow>
                Inr (nodeAttrs(''src'' \<mapsto> getAttribute source0 ''src'',
                               ''type'' \<mapsto> getAttribute source0 ''type''))))"

text \<open>
  \<open>handleCustomComponents(elementJSON, component)\<close>: the node of a mapped element. Its
  \<open>props\<close> were empty and its \<open>slots\<close> stay empty.
\<close>

definition handleCustomComponents ::
  "node \<Rightarrow> (component_mapping \<times> node_id) \<Rightarrow> node" where
  "handleCustomComponents elementJSON component =
     Node (if codeComponentName (fst component) \<noteq> [] then codeComponentName (fst component)
           else type elementJSON)
          (uid elementJSON) (attrs elementJSON)
          (props elementJSON ++ propMappings (fst component))
          (slots elementJSON) (styles elementJSON)"

text \<open>
  The end of the converter: \<open>if (children.length)\<close> the node gets the property \<open>children\<close>,
  a slot descriptor, and the slot with the child list.
\<close>

definition addChildren :: "node \<Rightarrow> nat \<Rightarrow> node list \<Rightarrow> node" where
  "addChildren elementJSON slotUid childList =
     (if childList \<noteq> [] then
        Node (type elementJSON) (uid elementJSON) (attrs elementJSON)
             ((props elementJSON)(''children'' \<mapsto> SlotProp slotUid))
             (slots elementJSON @ [(slotUid, childList)]) (styles elementJSON)
      else elementJSON)"

text \<open>
  In the line-break branch the object \<open>childJSON\<close> is pushed to \<open>children\<close> by reference and
  may be changed after a push. The list under construction therefore holds \<open>Merged\<close> for
  each push of \<open>childJSON\<close>, replaced by its final state after the loop.
\<close>

datatype pushed = Merged | Converted node

fun resolvePushed :: "node \<Rightarrow> pushed \<Rightarrow> node" where
  "resolvePushed childJSON Merged = childJSON"
| "resolvePushed childJSON (Converted c) = c"

text \<open>\<open>childNodes[i+1]?.nodeType !== Node.TEXT_NODE && childNodes[i+1]?.nodeName.toLowerCase() !== "br"\<close>\<close>

fun nextIsBoundary :: "child list \<Rightarrow> bool" where
  "nextIsBoundary [] = True"
| "nextIsBoundary (c # cs) = (\<not> isTextNode c \<and> toLowerCase (nodeName c) \<noteq> ''br'')"

text \<open>
  \<open>convertHTMLToComposableJSON(element, componentMappings, designTokens)\<close>, with the counter
  of identifiers as last argument and in the result. \<open>processChildNodes\<close> is the loop of the
  default branch (its arguments: whether the element is an anchor, the element's full
  text, the child nodes left, the node's \<open>props\<close> and the \<open>children\<close> so far);
  \<open>mergeLineBreaks\<close> is the loop of the line-break branch (the element's full text, the
  child nodes left, the \<open>props\<close> of \<open>childJSON\<close>, the pushes so far, and whether the
  element's type was set to \<open>box\<close>).
\<close>

fun convertHTMLToComposableJSON ::
    "env \<Rightarrow> component_mapping list \<Rightarrow> element \<Rightarrow> nat \<Rightarrow> error + (node option \<times> nat)"
  and processChildNodes ::
    "env \<Rightarrow> component_mapping list \<Rightarrow> bool \<Rightarrow> string \<Rightarrow> child list \<Rightarrow> (string \<rightharpoonup> prop_descriptor)
     \<Rightarrow> node list \<Rightarrow> nat \<Rightarrow> error + ((string \<rightharpoonup> prop_descriptor) \<times> node list \<times> nat)"
  and mergeLineBreaks ::
    "env \<Rightarrow> component_mapping list \<Rightarrow> string \<Rightarrow> child list \<Rightarrow> (string \<rightharpoonup> prop_descriptor)
     \<Rightarrow> pushed list \<Rightarrow> bool \<Rightarrow> nat
     \<Rightarrow> error + ((string \<rightharpoonup> prop_descriptor) \<times> pushed list \<times> bool \<times> nat)" where
  "convertHTMLToComposableJSON host componentMappings (Element d cs) n =
     (let element = Element d cs in
      if toLowerCase (tagName d) = ''br'' then Inr (None, n)
      else
        (let figmaNodeId = getAttribute element ''data-figma-id'';
             component = selectComponent figmaNodeId componentMappings;
             componentName = getComponentName element;
             style = getElementResponsiveStyles host element;
             elementJSON = Node componentName n (getElementAttributes element) Map.empty [] style
         in case appliedComponent component of
              Some c \<Rightarrow> Inr (Some (handleCustomComponents elementJSON c), Suc n)
            | None \<Rightarrow>
                (let slotUid = Suc n;
                     hasBrElement = list_ex (\<lambda>c. toLowerCase (nodeName c) = ''br'') cs
                 in if toLowerCase (tagName d) = ''div'' \<and> cs = [] \<and> textContent element \<noteq> [] then
                      (let txt = getFullTextContent element;
                           childJSON = Node ''text'' (Suc (Suc n)) Map.empty
                                         (handleTextNode txt Map.empty []) [] style
                       in Inr (Some (addChildren elementJSON slotUid
                                       (if trim txt \<noteq> [] then [childJSON] else [])),
                               Suc (Suc (Suc n))))
                    else if hasBrElement \<and> componentName \<notin> set HTML_RTE_COMPONENTS then
                      (case mergeLineBreaks host componentMappings (getFullTextContent element) cs
                              Map.empty [] False (Suc (Suc (Suc n))) of
                         Inl err \<Rightarrow> Inl err
                       | Inr (childProps, pushes, boxed, n') \<Rightarrow>
                           (let childJSON = Node componentName (Suc (Suc n)) Map.empty childProps [] style;
                                typed = Node (if boxed then ''box'' else componentName) n
                                          (getElementAttributes element) Map.empty [] style
                            in Inr (Some (addChildren typed slotUid (map (resolvePushed childJSON) pushes)),
                                    n')))
                    else if componentName \<in> set HTML_RTE_COMPONENTS \<and> cs \<noteq> [] then
                      Inr (Some (Node componentName n (getElementAttributes element)
                                   [''html'' \<mapsto> StringProp (Some (innerHTML host element))] [] style),
                           Suc (Suc n))
                    else if toLowerCase (tagName d) = ''svg'' then
                      Inr (Some (Node componentName n (getElementAttributes element)
                                   [''src'' \<mapsto> ImageUrlProp (svgDataUri host element)] [] style),
                           Suc (Suc n))
                    else
                      (let buttonProps =
                             (if toLowerCase (tagName d) = ''button''
                              then handleButtonElement (getFullTextContent element) Map.empty
                              else Map.empty);
                           linkProps =
                             (if toLowerCase (tagName d) = ''a''
                              then handleLinkElement element buttonProps else buttonProps)
                       in if tagName d \<in> set MEDIA_TAGS then
                            (case handleImageElement host element linkProps of
                               Inl err \<Rightarrow> Inl err
                             | Inr mediaProps \<Rightarrow>
                                 (case handleVideoElement element (getElementAttributes element) of
                                    Inl err \<Rightarrow> Inl err
                                  | Inr mediaAttrs \<Rightarrow>
                                      Inr (Some (Node componentName n mediaAttrs mediaProps [] style),
                                           Suc (Suc n))))
                          else
                            (case processChildNodes host componentMappings
                                    (toLowerCase (tagName d) = ''a'') (getFullTextContent element) cs
                                    linkProps [] (Suc (Suc n)) of
                               Inl err \<Rightarrow> Inl err
                             | Inr (finalProps, childList, n') \<Rightarrow>
                                 Inr (Some (addChildren
                                              (Node componentName n (getElementAttributes element)
                                                 finalProps [] style)
                                              slotUid childList),
                                      n'))))))"
| "processChildNodes host componentMappings isAnchor txt [] nodeProps childList n =
     Inr (nodeProps, childList, n)"
| "processChildNodes host componentMappings isAnchor txt (TextChild t # rest) nodeProps childList n =
     processChildNodes host componentMappings isAnchor txt rest
       (if \<not> isAnchor then handleTextNode txt nodeProps [] else nodeProps) childList n"
| "processChildNodes host componentMappings isAnchor txt (ElementChild e # rest) nodeProps childList n =
     (case convertHTMLToComposableJSON host componentMappings e n of
        Inl err \<Rightarrow> Inl err
      | Inr (None, n') \<Rightarrow>
          processChildNodes host componentMappings isAnchor txt rest nodeProps childList n'
      | Inr (Some childJSON, n') \<Rightarrow>
          processChildNodes host componentMappings isAnchor txt rest nodeProps
            (childList @ [childJSON]) n')"
| "processChildNodes host componentMappings isAnchor txt (OtherChild name # rest) nodeProps childList n =
     processChildNodes host componentMappings isAnchor txt rest nodeProps childList n"
| "mergeLineBreaks host componentMappings txt [] childProps pushes boxed n =
     Inr (childProps, pushes, boxed, n)"
| "mergeLineBreaks host componentMappings txt (TextChild t # rest) childProps pushes boxed n =
     mergeLineBreaks host componentMappings txt rest
       (handleTextNode txt childProps (textStaticString childProps))
       (if nextIsBoundary rest then pushes @ [Merged] else pushes) True n"
| "mergeLineBreaks host componentMappings txt (ElementChild e # rest) childProps pushes boxed n =
     (if toLowerCase (nodeName (ElementChild e)) = ''br''
      then mergeLineBreaks host componentMappings txt rest childProps pushes boxed n
      else (case convertHTMLToComposableJSON host componentMappings e n of
              Inl err \<Rightarrow> Inl err
            | Inr (None, n') \<Rightarrow>
                mergeLineBreaks host componentMappings txt rest childProps pushes boxed n'
            | Inr (Some childJSON, n') \<Rightarrow>
                mergeLineBreaks host componentMappings txt rest childProps
                  (pushes @ [Converted childJSON]) boxed n'))"
| "mergeLineBreaks host componentMappings txt (OtherChild name # rest) childProps pushes boxed n =
     (if toLowerCase name = ''br''
      then mergeLineBreaks host componentMappings txt rest childProps pushes boxed n
      else mergeLineBreaks host componentMappings txt rest childProps pushes boxed n)"

text \<open>
  The \<open>props\<close> of a node when the loop over its child nodes starts: the label of a button
  and the properties of a link, as the converter's default branch computes them.
\<close>

definition linkProps :: "element \<Rightarrow> (string \<rightharpoonup> prop_descriptor)" where
  "linkProps e =
     (let buttonProps = (if toLowerCase (tagName (elementData e)) = ''button''
                         then handleButtonElement (getFullTextContent e) Map.empty else Map.empty)
      in if toLowerCase (tagName (elementData e)) = ''a'' then handleLinkElement e buttonProps
         else buttonProps)"

section \<open>Predicates on the emitted tree\<close>

text \<open>A property of a node and of every node below it.\<close>

fun everyNode :: "(node \<Rightarrow> bool) \<Rightarrow> node \<Rightarrow> bool" where
  "everyNode P (Node t u a p s st) =
     (P (Node t u a p s st) \<and> list_all (\<lambda>slot. list_all (everyNode P) (snd slot)) s)"

fun pushedHolds :: "(node \<Rightarrow> bool) \<Rightarrow> pushed \<Rightarrow> bool" where
  "pushedHolds P Merged = True"
| "pushedHolds P (Converted c) = everyNode P c"

text \<open>A node has child nodes when one of its slots holds a node.\<close>

definition hasChildNodes :: "node \<Rightarrow> bool" where
  "hasChildNodes nd = list_ex (\<lambda>slot. snd slot \<noteq> []) (slots nd)"

text \<open>
  The property \<open>children\<close> of the node is a slot descriptor, and the slot it names exists
  and is not empty.
\<close>

definition childrenSlotFilled :: "node \<Rightarrow> bool" where
  "childrenSlotFilled nd =
     (case props nd ''children'' of
        Some (SlotProp k) \<Rightarrow> (case map_of (slots nd) k of Some ns \<Rightarrow> ns \<noteq> [] | None \<Rightarrow> False)
      | _ \<Rightarrow> False)"

definition slotInvariant :: "node \<Rightarrow> bool" where
  "slotInvariant nd = (hasChildNodes nd = childrenSlotFilled nd)"

text \<open>The result of a conversion that returned a node: its node, \<open>None\<close> otherwise.\<close>

definition emitted :: "error + (node option \<times> nat) \<Rightarrow> node option" where
  "emitted r = (case r of Inl err \<Rightarrow> None | Inr (nd, n) \<Rightarrow> nd)"

section \<open>Example pages\<close>

text \<open>
  An element whose computed style, like its parent's, lists \<open>display: block\<close> and a black
  \<open>color\<close>, with no inline \<open>overflow\<close> or \<open>text-overflow\<close>.
\<close>

definition plainStyle :: style_decl where
  "plainStyle =
     \<lparr>propertyNames = [''display'', ''color''],
      getPropertyValue = (\<lambda>p. if p = ''display'' then ''block''
                               else if p = ''color'' then ''rgb(0, 0, 0)'' else [])\<rparr>"

definition htmlElement :: "string \<Rightarrow> (string \<times> string) list \<Rightarrow> child list \<Rightarrow> element" where
  "htmlElement tag as cs =
     Element \<lparr>tagName = tag, attributes = as, computedStyle = plainStyle,
              parentComputedStyle = Some plainStyle, styleOverflow = [], styleTextOverflow = []\<rparr> cs"

text \<open>
  A page whose baseline frame works and reports the same values as \<open>plainStyle\<close>, a page
  whose baseline snapshots are empty, and a page where the frame cannot be created.
\<close>

definition pageHost :: env where
  "pageHost =
     \<lparr>baselineFrame = Some (\<lambda>tag. getPropertyValue plainStyle),
      absoluteUrl = (\<lambda>e. Some ''https://example.com/a.png''),
      svgDataUri = (\<lambda>e. ''data:image/svg+xml;base64,''),
      innerHTML = (\<lambda>e. [])\<rparr>"

definition emptyBaselineHost :: env where
  "emptyBaselineHost = pageHost\<lparr>baselineFrame := Some (\<lambda>tag p. [])\<rparr>"

definition failingHost :: env where
  "failingHost = pageHost\<lparr>baselineFrame := None\<rparr>"

text \<open>Two mapping entries that list the same node id, one without a component name, and
  one whose node id is empty.\<close>

definition heroEntry :: component_mapping where
  "heroEntry =
     \<lparr>nodeIds = [\<lparr>nodeId = ''n1'', variantProperties = []\<rparr>], codeComponentName = ''Hero'',
      propMappings = Map.empty, figmaComponentKey = ''k1''\<rparr>"

definition cardEntry :: component_mapping where
  "cardEntry =
     \<lparr>nodeIds = [\<lparr>nodeId = ''n0'', variantProperties = []\<rparr>, \<lparr>nodeId = ''n1'', variantProperties = ''v1''\<rparr>,
                \<lparr>nodeId = ''n1'', variantProperties = ''v2''\<rparr>],
      codeComponentName = ''Card'', propMappings = [''title'' \<mapsto> StringProp (Some ''Hello'')],
      figmaComponentKey = ''k2''\<rparr>"

definition unnamedEntry :: component_mapping where
  "unnamedEntry =
     \<lparr>nodeIds = [\<lparr>nodeId = ''n2'', variantProperties = []\<rparr>], codeComponentName = [],
      propMappings = Map.empty, figmaComponentKey = ''k3''\<rparr>"

definition emptyIdEntry :: component_mapping where
  "emptyIdEntry =
     \<lparr>nodeIds = [\<lparr>nodeId = [], variantProperties = []\<rparr>], codeComponentName = ''Ghost'',
      propMappings = Map.empty, figmaComponentKey = ''k4''\<rparr>"

text \<open>\<open><div data-figma-id="n1"><video></video></div>\<close>: converting the child would throw.\<close>

definition mappedDiv :: element where
  "mappedDiv = htmlElement ''DIV'' [(''data-figma-id'', ''n1'')] [ElementChild (htmlElement ''VIDEO'' [] [])]"

text \<open>\<open><div data-figma-id="n2"></div>\<close> and \<open><div data-figma-id=""></div>\<close>\<close>

definition unnamedDiv :: element where
  "unnamedDiv = htmlElement ''DIV'' [(''data-figma-id'', ''n2'')] []"

definition emptyIdDiv :: element where
  "emptyIdDiv = htmlElement ''DIV'' [(''data-figma-id'', [])] []"

text \<open>\<open><p style="color: red; background: url(https://x.org/a.png)">Hi</p>\<close>\<close>

definition styledParagraph :: element where
  "styledParagraph =
     htmlElement ''P'' [(''style'', ''color: red; background: url(https://x.org/a.png)'')]
       [TextChild ''Hi'']"

text \<open>
  Paragraphs with a clamping class: \<open>Lorem ipsum dolor sit amet consectetur\<close>, a text that
  ends in dots, a text inside white space, and a text of dots only.
\<close>

definition clampedParagraph :: "string \<Rightarrow> element" where
  "clampedParagraph t = htmlElement ''P'' [(''class'', ''teaser line-clamp-3'')] [TextChild t]"

text \<open>\<open><p><br></p>\<close> and \<open><p>one<br>two</p>\<close>\<close>

definition breakOnly :: element where
  "breakOnly = htmlElement ''P'' [] [ElementChild (htmlElement ''BR'' [] [])]"

definition twoLines :: element where
  "twoLines =
     htmlElement ''P'' [] [TextChild ''one'', ElementChild (htmlElement ''BR'' [] []), TextChild ''two'']"

text \<open>\<open><div></div>\<close> and \<open><div><span>a</span><span>b</span></div>\<close>\<close>

definition emptyDiv :: element where
  "emptyDiv = htmlElement ''DIV'' [] []"

definition twoSpans :: element where
  "twoSpans =
     htmlElement ''DIV'' []
       [ElementChild (htmlElement ''SPAN'' [] [TextChild ''a'']),
        ElementChild (htmlElement ''SPAN'' [] [TextChild ''b''])]"

section \<open>Lemmas: the route\<close>

lemma removeSpecial_chars: "c \<in> set (removeSpecial s) \<Longrightarrow> isRouteChar c"
  by (simp add: removeSpecial_def)

lemma filter_dropWhile_other: "(\<And>x. Q x \<Longrightarrow> \<not> P x) \<Longrightarrow> filter P (dropWhile Q xs) = filter P xs"
  by (induction xs) auto

lemma removeSpecial_stripSlashes: "removeSpecial (stripSlashes s) = removeSpecial s"
proof -
  have slash: "\<And>x. x = CHR ''/'' \<Longrightarrow> \<not> isRouteChar x"
    by (simp add: isRouteChar_def)
  have "filter isRouteChar (rev (dropWhile (\<lambda>c. c = CHR ''/'') (rev (dropWhile (\<lambda>c. c = CHR ''/'') s))))
        = rev (filter isRouteChar (dropWhile (\<lambda>c. c = CHR ''/'') (rev (dropWhile (\<lambda>c. c = CHR ''/'') s))))"
    by (simp only: rev_filter)
  also have "\<dots> = rev (filter isRouteChar (rev (dropWhile (\<lambda>c. c = CHR ''/'') s)))"
    by (simp only: filter_dropWhile_other [OF slash])
  also have "\<dots> = filter isRouteChar (dropWhile (\<lambda>c. c = CHR ''/'') s)"
    by (simp only: rev_filter [symmetric] rev_rev_ident)
  also have "\<dots> = filter isRouteChar s"
    by (simp only: filter_dropWhile_other [OF slash])
  finally show ?thesis
    by (simp add: removeSpecial_def stripSlashes_def)
qed

lemma dropWhile_all: "(\<forall>x \<in> set (dropWhile Q xs). Q x) = (\<forall>x \<in> set xs. Q x)"
  by (induction xs) auto

lemma stripSlashes_Nil: "(stripSlashes s = []) = list_all (\<lambda>c. c = CHR ''/'') s"
  by (simp add: stripSlashes_def dropWhile_eq_Nil_conv dropWhile_all list_all_iff)

lemma set_stripSlashes: "set (stripSlashes s) \<subseteq> set s"
proof -
  have "set (stripSlashes s) = set (dropWhile (\<lambda>c. c = CHR ''/'') (rev (dropWhile (\<lambda>c. c = CHR ''/'') s)))"
    by (simp add: stripSlashes_def)
  also have "\<dots> \<subseteq> set (rev (dropWhile (\<lambda>c. c = CHR ''/'') s))"
    by (auto dest: set_dropWhileD)
  also have "\<dots> \<subseteq> set s"
    by (auto dest: set_dropWhileD)
  finally show ?thesis .
qed

lemma collapseSeparators_append:
  "\<forall>x \<in> set a. \<not> isSeparator x \<Longrightarrow> collapseSeparators (a @ b) = a @ collapseSeparators b"
  by (induction a) simp_all

lemma collapseSeparators_id: "\<forall>x \<in> set a. \<not> isSeparator x \<Longrightarrow> collapseSeparators a = a"
  using collapseSeparators_append [of a "[]"] by simp

lemma collapseSeparators_join:
  assumes "\<forall>x \<in> set a. \<not> isSeparator x" and "\<forall>x \<in> set b. \<not> isSeparator x" and "b \<noteq> []"
  shows "collapseSeparators (a @ ''_'' @ b @ rest) = a @ ''_'' @ b @ collapseSeparators rest"
proof -
  from assms(2,3) obtain x xs where b: "b = x # xs" and x: "\<not> isSeparator x"
    by (cases b) auto
  have "collapseSeparators (a @ ''_'' @ b @ rest) = a @ collapseSeparators (''_'' @ b @ rest)"
    using assms(1) by (rule collapseSeparators_append)
  also have "collapseSeparators (''_'' @ b @ rest) = ''_'' @ collapseSeparators (b @ rest)"
    using x by (simp add: b isSeparator_def)
  also have "collapseSeparators (b @ rest) = b @ collapseSeparators rest"
    using assms(2) by (rule collapseSeparators_append)
  finally show ?thesis by simp
qed

lemma removeSpecial_append: "removeSpecial (a @ b) = removeSpecial a @ removeSpecial b"
  by (simp add: removeSpecial_def)

lemma removeSpecial_underscore: "removeSpecial ''_'' = ''_''"
  by (simp add: removeSpecial_def isRouteChar_def)

lemma removeSpecial_root: "removeSpecial ''root'' = ''root''"
  by (simp add: removeSpecial_def isRouteChar_def)

lemma cleanRoute_plain:
  assumes h: "\<forall>x \<in> set (hostname u). \<not> isSeparator x"
    and p: "\<forall>x \<in> set (port u). \<not> isSeparator x"
    and q: "\<forall>x \<in> set (pathname u). \<not> isSeparator x"
  shows "removeSpecial (collapseSeparators
           ((if port u \<noteq> [] then hostname u @ ''_'' @ port u else hostname u) @ ''_''
            @ (if stripSlashes (pathname u) = [] then ''root'' else stripSlashes (pathname u))))
         = removeSpecial (hostname u)
           @ (if port u \<noteq> [] then ''_'' @ removeSpecial (port u) else [])
           @ ''_''
           @ (if list_all (\<lambda>c. c = CHR ''/'') (pathname u) then ''root''
              else removeSpecial (pathname u))"
proof -
  define path where "path = (if stripSlashes (pathname u) = [] then ''root'' else stripSlashes (pathname u))"
  have path_ne: "path \<noteq> []"
    by (simp add: path_def)
  have path_sep: "\<forall>x \<in> set path. \<not> isSeparator x"
    using q set_stripSlashes [of "pathname u"]
    by (auto simp: path_def isSeparator_def isSpace_def)
  have path_rs: "removeSpecial path
                 = (if list_all (\<lambda>c. c = CHR ''/'') (pathname u) then ''root''
                    else removeSpecial (pathname u))"
    by (simp add: path_def stripSlashes_Nil removeSpecial_stripSlashes removeSpecial_root)
  show ?thesis
  proof (cases "port u = []")
    case True
    have "collapseSeparators (hostname u @ ''_'' @ path @ []) = hostname u @ ''_'' @ path @ collapseSeparators []"
      using h path_sep path_ne by (rule collapseSeparators_join)
    then show ?thesis
      using True path_rs
      by (simp add: path_def [symmetric] removeSpecial_append removeSpecial_underscore
          del: append_Cons)
  next
    case False
    have "collapseSeparators (hostname u @ ''_'' @ port u @ (''_'' @ path))
          = hostname u @ ''_'' @ port u @ collapseSeparators (''_'' @ path)"
      using h p False by (rule collapseSeparators_join)
    moreover have "collapseSeparators ([] @ ''_'' @ path @ []) = [] @ ''_'' @ path @ collapseSeparators []"
      by (rule collapseSeparators_join) (use path_sep path_ne in simp_all)
    ultimately have "collapseSeparators (hostname u @ ''_'' @ port u @ ''_'' @ path)
          = hostname u @ ''_'' @ port u @ ''_'' @ path"
      by simp
    then show ?thesis
      using False path_rs
      by (simp add: path_def [symmetric] removeSpecial_append removeSpecial_underscore
          del: append_Cons)
  qed
qed

lemma getPageRoute_chars: "list_all isRouteChar (getPageRoute loc)"
proof (cases loc)
  case None
  then show ?thesis by (simp add: getPageRoute_def isRouteChar_def)
next
  case (Some u)
  have "list_all isRouteChar (removeSpecial s)" for s
    by (simp add: removeSpecial_def list_all_iff)
  moreover have "list_all isRouteChar ''page_''"
    by (simp add: isRouteChar_def)
  ultimately show ?thesis
    using Some by (simp add: getPageRoute_def Let_def)
qed

lemma getPageRoute_no_digit: "\<not> startsWithDigit (getPageRoute loc)"
proof (cases loc)
  case None
  then show ?thesis by (simp add: getPageRoute_def startsWithDigit_def isDigit_def)
next
  case (Some u)
  have "\<not> startsWithDigit (''page_'' @ s)" for s
    by (simp add: startsWithDigit_def isDigit_def)
  then show ?thesis
    using Some by (simp add: getPageRoute_def Let_def)
qed

section \<open>C5: the route of a page\<close>

text \<open>
  C5 (as stated, refuted): the route of \<open>https://example.com:8080/blog/post-1/\<close> is not
  \<open>example.com_8080_blog_post-1\<close>, and the route of \<open>https://example.com/\<close> is not
  \<open>example.com_root\<close>: the character filter runs over the whole route, host included, and
  removes the dots and the inner slash.
\<close>

theorem getPageRoute_keeps_no_dot_counterexample:
  "getPageRoute (Some blogPostUrl) \<noteq> ''example.com_8080_blog_post-1''
   \<and> getPageRoute (Some rootUrl) \<noteq> ''example.com_root''"
  by (simp add: getPageRoute_def blogPostUrl_def rootUrl_def stripSlashes_def removeSpecial_def
      isRouteChar_def isSeparator_def isSpace_def isDigit_def startsWithDigit_def)

text \<open>
  C5 (amended): the route of \<open>https://example.com:8080/blog/post-1/\<close> is
  \<open>examplecom_8080_blogpost-1\<close> and the route of \<open>https://example.com/\<close> is
  \<open>examplecom_root\<close>. For every page, every character of the route is an ASCII letter, a
  digit, an underscore or a hyphen, so the route holds no dot and no slash, and the route does
  not start with a digit. For every URL whose host, port and pathname hold no underscore
  and no white space, the route is the host, then an underscore and the port when there
  is a port, then an underscore and the path, where of host, port and pathname only the
  ASCII letters, digits and hyphens are kept and the path is \<open>root\<close> when the pathname consists
  of slashes only; the prefix \<open>page_\<close> is put before a route that would start with a
  digit.
\<close>

theorem getPageRoute_filters_whole_route:
  "getPageRoute (Some blogPostUrl) = ''examplecom_8080_blogpost-1''
   \<and> getPageRoute (Some rootUrl) = ''examplecom_root''
   \<and> list_all isRouteChar (getPageRoute loc)
   \<and> CHR ''.'' \<notin> set (getPageRoute loc) \<and> CHR ''/'' \<notin> set (getPageRoute loc)
   \<and> \<not> startsWithDigit (getPageRoute loc)
   \<and> (\<not> list_ex isSeparator (hostname u @ port u @ pathname u) \<longrightarrow>
        getPageRoute (Some u)
          = (let route = removeSpecial (hostname u)
                         @ (if port u \<noteq> [] then ''_'' @ removeSpecial (port u) else [])
                         @ ''_''
                         @ (if list_all (\<lambda>c. c = CHR ''/'') (pathname u) then ''root''
                            else removeSpecial (pathname u))
             in if startsWithDigit route then ''page_'' @ route else route))"
proof (intro conjI impI)
  show "getPageRoute (Some blogPostUrl) = ''examplecom_8080_blogpost-1''"
    by (simp add: getPageRoute_def blogPostUrl_def stripSlashes_def removeSpecial_def
        isRouteChar_def isSeparator_def isSpace_def isDigit_def startsWithDigit_def)
  show "getPageRoute (Some rootUrl) = ''examplecom_root''"
    by (simp add: getPageRoute_def rootUrl_def stripSlashes_def removeSpecial_def
        isRouteChar_def isSeparator_def isSpace_def isDigit_def startsWithDigit_def)
  show chars: "list_all isRouteChar (getPageRoute loc)"
    by (rule getPageRoute_chars)
  have "\<not> isRouteChar (CHR ''.'')" and "\<not> isRouteChar (CHR ''/'')"
    by (simp_all add: isRouteChar_def)
  with chars show "CHR ''.'' \<notin> set (getPageRoute loc)" and "CHR ''/'' \<notin> set (getPageRoute loc)"
    by (auto simp: list_all_iff)
  show "\<not> startsWithDigit (getPageRoute loc)"
    by (rule getPageRoute_no_digit)
next
  assume "\<not> list_ex isSeparator (hostname u @ port u @ pathname u)"
  then have h: "\<forall>x \<in> set (hostname u). \<not> isSeparator x"
    and p: "\<forall>x \<in> set (port u). \<not> isSeparator x"
    and q: "\<forall>x \<in> set (pathname u). \<not> isSeparator x"
    by (auto simp: list_ex_iff)
  show "getPageRoute (Some u)
          = (let route = removeSpecial (hostname u)
                         @ (if port u \<noteq> [] then ''_'' @ removeSpecial (port u) else [])
                         @ ''_''
                         @ (if list_all (\<lambda>c. c = CHR ''/'') (pathname u) then ''root''
                            else removeSpecial (pathname u))
             in if startsWithDigit route then ''page_'' @ route else route)"
    unfolding getPageRoute_def option.case Let_def cleanRoute_plain [OF h p q] ..
qed

text \<open>
  The pages of the examples hold no underscore and no white space. The host of
  \<open>http://127.0.0.1:3000/\<close> starts with a digit, and its route gets the prefix; the
  pathname of \<open>https://example.com/docs/v1.2/intro.html\<close> loses its dots and slashes.
\<close>

theorem getPageRoute_filters_whole_route_witness:
  "\<not> list_ex isSeparator (hostname blogPostUrl @ port blogPostUrl @ pathname blogPostUrl)
   \<and> getPageRoute (Some blogPostUrl) = ''examplecom_8080_blogpost-1''
   \<and> \<not> list_ex isSeparator (hostname loopbackUrl @ port loopbackUrl @ pathname loopbackUrl)
   \<and> getPageRoute (Some loopbackUrl) = ''page_127001_3000_root''
   \<and> \<not> list_ex isSeparator (hostname docsUrl @ port docsUrl @ pathname docsUrl)
   \<and> getPageRoute (Some docsUrl) = ''examplecom_docsv12introhtml''"
proof -
  have b: "\<not> list_ex isSeparator (hostname blogPostUrl @ port blogPostUrl @ pathname blogPostUrl)"
    by (simp add: blogPostUrl_def isSeparator_def isSpace_def)
  have l: "\<not> list_ex isSeparator (hostname loopbackUrl @ port loopbackUrl @ pathname loopbackUrl)"
    by (simp add: loopbackUrl_def isSeparator_def isSpace_def)
  have d: "\<not> list_ex isSeparator (hostname docsUrl @ port docsUrl @ pathname docsUrl)"
    by (simp add: docsUrl_def isSeparator_def isSpace_def)
  note t = getPageRoute_filters_whole_route [THEN conjunct2, THEN conjunct2, THEN conjunct2,
      THEN conjunct2, THEN conjunct2, THEN conjunct2, rule_format]
  have "getPageRoute (Some blogPostUrl) = ''examplecom_8080_blogpost-1''"
    using t [OF b]
    by (simp add: blogPostUrl_def removeSpecial_def isRouteChar_def startsWithDigit_def isDigit_def)
  moreover have "getPageRoute (Some loopbackUrl) = ''page_127001_3000_root''"
    using t [OF l]
    by (simp add: loopbackUrl_def removeSpecial_def isRouteChar_def startsWithDigit_def isDigit_def)
  moreover have "getPageRoute (Some docsUrl) = ''examplecom_docsv12introhtml''"
    using t [OF d]
    by (simp add: docsUrl_def removeSpecial_def isRouteChar_def startsWithDigit_def isDigit_def)
  ultimately show ?thesis
    using b l d by blast
qed

section \<open>Lemmas: component mappings\<close>

lemma find_first_match:
  "\<forall>x \<in> set xs. \<not> P x \<Longrightarrow> P y \<Longrightarrow> find P (xs @ y # ys) = Some y"
  by (induction xs) simp_all

lemma findNodeId_first:
  "nodeIds entry = before @ matched # after \<Longrightarrow> nodeId matched = i \<Longrightarrow>
   \<forall>x \<in> set before. nodeId x \<noteq> i \<Longrightarrow> findNodeId (Some i) entry = Some matched"
  by (simp add: findNodeId_def find_first_match)

lemma findNodeId_none:
  "\<forall>x \<in> set (nodeIds m). nodeId x \<noteq> i \<Longrightarrow> findNodeId (Some i) m = None"
  by (simp add: findNodeId_def find_None_iff)

lemma foldl_selectStep_none:
  "\<forall>m \<in> set later. findNodeId fid m = None \<Longrightarrow> foldl (selectStep fid) c later = c"
  by (induction later arbitrary: c) (simp_all add: selectStep_def)

lemma selectComponent_last_matching_entry:
  assumes "componentMappings = earlier @ entry # later"
    and "nodeIds entry = before @ matched # after"
    and "nodeId matched = i"
    and "\<forall>x \<in> set before. nodeId x \<noteq> i"
    and "\<forall>m \<in> set later. \<forall>x \<in> set (nodeIds m). nodeId x \<noteq> i"
  shows "selectComponent (Some i) componentMappings = Some (entry, matched)"
proof -
  have m: "findNodeId (Some i) entry = Some matched"
    using assms(2,3,4) by (rule findNodeId_first)
  have l: "\<forall>m \<in> set later. findNodeId (Some i) m = None"
    using assms(5) by (simp add: findNodeId_none)
  show ?thesis
    unfolding selectComponent_def assms(1)
    by (simp add: selectStep_def m foldl_selectStep_none [OF l])
qed

section \<open>Lemmas: style resolution\<close>

lemma includeProperty_or:
  "includeProperty ''uaDiffPlusInherited'' ps ua prop val
     = (includeProperty ''uaDiff'' ps ua prop val \<or> includeProperty ''inheritedOnly'' ps ua prop val)"
  by (auto simp: includeProperty_def split: option.splits)

lemma propertyKept_or:
  "propertyKept ''uaDiffPlusInherited'' wl cs ps ua prop
     = (propertyKept ''uaDiff'' wl cs ps ua prop \<or> propertyKept ''inheritedOnly'' wl cs ps ua prop)"
  unfolding propertyKept_def Let_def includeProperty_or by auto

lemma keys_ownProperty: "set (map fst (ownProperty k v kvs)) = insert k (set (map fst kvs))"
  by (induction k v kvs rule: ownProperty.induct) auto

lemma keys_assign:
  "set (map fst (assign k v kvs))
     = (if k = ''__proto__'' then set (map fst kvs) else insert k (set (map fst kvs)))"
  by (simp add: assign_def keys_ownProperty del: set_map)

lemma collect_keys_gen:
  "set (map fst (foldl (collectStep mode wl cs ps ua) acc names))
     = set (map fst acc)
       \<union> {p \<in> set names. propertyKept mode wl cs ps ua p \<and> p \<noteq> ''__proto__''}"
proof (induction names arbitrary: acc)
  case Nil
  then show ?case by simp
next
  case (Cons p names)
  show ?case
    unfolding foldl_Cons Cons.IH
    by (auto simp: collectStep_def keys_assign simp del: set_map)
qed

lemma collectStyles_keys:
  "set (map fst (collectStyles mode wl cs ps ua))
     = {p \<in> set (propertyNames cs). propertyKept mode wl cs ps ua p \<and> p \<noteq> ''__proto__''}"
  by (simp add: collectStyles_def collect_keys_gen del: set_map)

lemma ownProperty_values:
  "(k', v') \<in> set (ownProperty k v kvs) \<Longrightarrow> (k', v') = (k, v) \<or> (k', v') \<in> set kvs"
  by (induction k v kvs rule: ownProperty.induct) (auto split: if_splits)

lemma assign_values: "(k', v') \<in> set (assign k v kvs) \<Longrightarrow> (k', v') = (k, v) \<or> (k', v') \<in> set kvs"
  by (auto simp: assign_def dest: ownProperty_values split: if_splits)

lemma collect_values_gen:
  "(k, v) \<in> set (foldl (collectStep mode wl cs ps ua) acc names) \<Longrightarrow>
   (k, v) \<in> set acc \<or> v \<noteq> []"
proof (induction names arbitrary: acc)
  case Nil
  then show ?case by simp
next
  case (Cons p names)
  from Cons.IH [OF Cons.prems [unfolded foldl_Cons]]
  show ?case
    by (auto simp: collectStep_def propertyKept_def Let_def dest!: assign_values split: if_splits)
qed

lemma collectStyles_values: "(k, v) \<in> set (collectStyles mode wl cs ps ua) \<Longrightarrow> v \<noteq> []"
  using collect_values_gen [of k v mode wl cs ps ua "[]" "propertyNames cs"]
  by (simp add: collectStyles_def)

lemma camel_fold_dom:
  "dom (foldl (\<lambda>outCamel (k, v). store outCamel (camel k) v) m kvs)
     = dom m \<union> (camel ` set (map fst kvs) - {''__proto__''})"
  by (induction kvs arbitrary: m) (auto simp: store_def split: if_splits simp del: set_map)

lemma toCamelObject_dom: "dom (toCamelObject kvs) = camel ` set (map fst kvs) - {''__proto__''}"
  by (simp add: toCamelObject_def camel_fold_dom del: set_map)

lemma camel_fold_values:
  "foldl (\<lambda>outCamel (k, v). store outCamel (camel k) v) m kvs key = Some val \<Longrightarrow>
   m key = Some val \<or> val \<in> set (map snd kvs)"
  by (induction kvs arbitrary: m) (fastforce simp: store_def split: if_splits simp del: set_map)+

lemma toCamelObject_truthy:
  "truthy (toCamelObject (collectStyles mode wl cs ps ua) key)
     = (key \<in> dom (toCamelObject (collectStyles mode wl cs ps ua)))"
proof (cases "toCamelObject (collectStyles mode wl cs ps ua) key")
  case None
  then show ?thesis by (simp add: truthy_def dom_def)
next
  case (Some val)
  then have "val \<in> set (map snd (collectStyles mode wl cs ps ua))"
    using camel_fold_values [of Map.empty "collectStyles mode wl cs ps ua" key val]
    by (simp add: toCamelObject_def del: set_map)
  then have "val \<noteq> []"
    using collectStyles_values by fastforce
  with Some show ?thesis by (auto simp: truthy_def)
qed

lemma getAppliedStyles_dom:
  "baselineFrame host = Some baseline \<Longrightarrow>
   \<exists>m. getAppliedStyles host e mode wl = Inr m \<and>
       dom m = (camel ` {p \<in> set (propertyNames (computedStyle (elementData e))).
                        propertyKept mode wl (computedStyle (elementData e))
                          (parentComputedStyle (elementData e)) (baseline (tagName (elementData e))) p
                        \<and> p \<noteq> ''__proto__''} - {''__proto__''})
               \<union> (if tagName (elementData e) = ''A'' \<and> isButtonLikeClass (className e)
                   then {''display''} else {})"
  by (auto simp: getAppliedStyles_def Let_def toCamelObject_truthy toCamelObject_dom
      collectStyles_keys simp del: set_map)

section \<open>Lemmas: the branches of the converter\<close>

lemma everyNode_leaf:
  "slots nd = [] \<Longrightarrow> everyNode slotInvariant nd"
  by (cases nd) (simp add: slotInvariant_def hasChildNodes_def childrenSlotFilled_def split: option.splits prop_descriptor.splits)

lemma everyNode_addChildren:
  "slots nd = [] \<Longrightarrow> list_all (everyNode slotInvariant) childList \<Longrightarrow>
   everyNode slotInvariant (addChildren nd slotUid childList)"
  by (cases nd) (simp add: addChildren_def slotInvariant_def hasChildNodes_def childrenSlotFilled_def
      split: option.splits prop_descriptor.splits)

lemma slots_handleCustomComponents: "slots (handleCustomComponents nd c) = slots nd"
  by (simp add: handleCustomComponents_def)

lemma resolve_all:
  "everyNode P childJSON \<Longrightarrow> list_all (pushedHolds P) pushes \<Longrightarrow>
   list_all (everyNode P) (map (resolvePushed childJSON) pushes)"
  by (induction pushes) (auto elim: pushedHolds.elims)

lemma textContent_no_children: "textContent (Element d []) = []"
  by simp

lemma convert_cases [consumes 1, case_names Mapped LineBreak Terminal Default]:
  assumes r: "convertHTMLToComposableJSON host ms (Element d cs) n = Inr (Some nd, n')"
  obtains
    c where "appliedComponent (selectComponent (getAttribute (Element d cs) ''data-figma-id'') ms) = Some c"
      and "nd = handleCustomComponents
                  (Node (getComponentName (Element d cs)) n (getElementAttributes (Element d cs))
                     Map.empty [] (getElementResponsiveStyles host (Element d cs))) c"
      and "n' = Suc n"
  | childProps pushes boxed where
      "appliedComponent (selectComponent (getAttribute (Element d cs) ''data-figma-id'') ms) = None"
      and "list_ex (\<lambda>c. toLowerCase (nodeName c) = ''br'') cs
           \<and> getComponentName (Element d cs) \<notin> set HTML_RTE_COMPONENTS"
      and "mergeLineBreaks host ms (getFullTextContent (Element d cs)) cs Map.empty [] False
             (Suc (Suc (Suc n))) = Inr (childProps, pushes, boxed, n')"
      and "nd = addChildren
                  (Node (if boxed then ''box'' else getComponentName (Element d cs)) n
                     (getElementAttributes (Element d cs)) Map.empty []
                     (getElementResponsiveStyles host (Element d cs)))
                  (Suc n)
                  (map (resolvePushed
                          (Node (getComponentName (Element d cs)) (Suc (Suc n)) Map.empty childProps []
                             (getElementResponsiveStyles host (Element d cs)))) pushes)"
  | "appliedComponent (selectComponent (getAttribute (Element d cs) ''data-figma-id'') ms) = None"
      and "\<not> (list_ex (\<lambda>c. toLowerCase (nodeName c) = ''br'') cs
              \<and> getComponentName (Element d cs) \<notin> set HTML_RTE_COMPONENTS)"
      and "(getComponentName (Element d cs) \<in> set HTML_RTE_COMPONENTS \<and> cs \<noteq> [])
           \<or> toLowerCase (tagName d) = ''svg'' \<or> tagName d \<in> set MEDIA_TAGS"
      and "slots nd = []" and "props nd ''children'' = None" and "n' = Suc (Suc n)"
      and "type nd = getComponentName (Element d cs)"
      and "styles nd = getElementResponsiveStyles host (Element d cs)"
  | finalProps childList where
      "appliedComponent (selectComponent (getAttribute (Element d cs) ''data-figma-id'') ms) = None"
      and "\<not> (list_ex (\<lambda>c. toLowerCase (nodeName c) = ''br'') cs
              \<and> getComponentName (Element d cs) \<notin> set HTML_RTE_COMPONENTS)"
      and "toLowerCase (tagName d) \<noteq> ''svg''" and "tagName d \<notin> set MEDIA_TAGS"
      and "processChildNodes host ms (toLowerCase (tagName d) = ''a'')
             (getFullTextContent (Element d cs)) cs (linkProps (Element d cs)) [] (Suc (Suc n))
             = Inr (finalProps, childList, n')"
      and "nd = addChildren
                  (Node (getComponentName (Element d cs)) n (getElementAttributes (Element d cs))
                     finalProps [] (getElementResponsiveStyles host (Element d cs)))
                  (Suc n) childList"
proof -
  let ?e = "Element d cs"
  let ?br = "list_ex (\<lambda>c. toLowerCase (nodeName c) = ''br'') cs
              \<and> getComponentName ?e \<notin> set HTML_RTE_COMPONENTS"
  from r have nb: "toLowerCase (tagName d) \<noteq> ''br''"
    by (auto simp: Let_def)
  have nodiv: "(toLowerCase (tagName d) = ''div'' \<and> cs = [] \<and> textContent ?e \<noteq> []) = False"
    by auto
  show thesis
  proof (cases "appliedComponent (selectComponent (getAttribute ?e ''data-figma-id'') ms)")
    case (Some c)
    with r nb show thesis
      by (intro that(1) [of c]) (simp_all add: Let_def)
  next
    case None
    show thesis
    proof (cases ?br)
      case True
      show thesis
      proof (cases "mergeLineBreaks host ms (getFullTextContent ?e) cs Map.empty [] False (Suc (Suc (Suc n)))")
        case (Inl err)
        with r nb None True show thesis
          by (simp add: nodiv Let_def del: textContent.simps)
      next
        case (Inr res)
        obtain childProps pushes boxed n2 where res: "res = (childProps, pushes, boxed, n2)"
          by (cases res) auto
        from r nb None True Inr res
        have "n' = n2 \<and> nd = addChildren
                  (Node (if boxed then ''box'' else getComponentName ?e) n
                     (getElementAttributes ?e) Map.empty [] (getElementResponsiveStyles host ?e))
                  (Suc n)
                  (map (resolvePushed
                          (Node (getComponentName ?e) (Suc (Suc n)) Map.empty childProps []
                             (getElementResponsiveStyles host ?e))) pushes)"
          by (simp add: nodiv Let_def del: textContent.simps)
        with Inr res show thesis
          using that(2) [of childProps pushes boxed] None True by simp
      qed
    next
      case False
      show thesis
      proof (cases "(getComponentName ?e \<in> set HTML_RTE_COMPONENTS \<and> cs \<noteq> [])
           \<or> toLowerCase (tagName d) = ''svg'' \<or> tagName d \<in> set MEDIA_TAGS")
        case True
        with r nb None False
        have "slots nd = [] \<and> props nd ''children'' = None \<and> n' = Suc (Suc n)
              \<and> type nd = getComponentName ?e \<and> styles nd = getElementResponsiveStyles host ?e"
          by (auto simp: nodiv Let_def handleImageElement_def handleVideoElement_def handleButtonElement_def
              handleLinkElement_def MEDIA_TAGS_def
              simp del: textContent.simps
              split: sum.splits prod.splits if_splits option.splits list.splits)
        then show thesis
          using that(3) None False True by blast
      next
        case nt: False
        show thesis
        proof (cases "processChildNodes host ms (toLowerCase (tagName d) = ''a'')
                  (getFullTextContent ?e) cs (linkProps ?e) [] (Suc (Suc n))")
          case (Inl err)
          with r nb None False nt show thesis
            by (auto simp add: nodiv Let_def linkProps_def simp del: textContent.simps split: if_splits)
        next
          case (Inr res)
          obtain finalProps childList n2 where res: "res = (finalProps, childList, n2)"
            by (cases res) auto
          from r nb None False nt Inr res
          have "n' = n2 \<and> nd = addChildren
                  (Node (getComponentName ?e) n (getElementAttributes ?e)
                     finalProps [] (getElementResponsiveStyles host ?e))
                  (Suc n) childList"
            by (auto simp add: nodiv Let_def linkProps_def simp del: textContent.simps split: if_splits)
          with Inr res show thesis
            using that(4) [of finalProps childList] None False nt by simp
        qed
      qed
    qed
  qed
qed

lemma convert_some_not_br:
  "convertHTMLToComposableJSON host ms (Element d cs) n = Inr (Some nd, n') \<Longrightarrow>
   toLowerCase (tagName d) \<noteq> ''br''"
  by (auto simp: Let_def)

lemma no_div_text_branch:
  "\<not> (toLowerCase (tagName d) = ''div'' \<and> cs = [] \<and> textContent (Element d cs) \<noteq> [])"
  by auto

lemma getComponentName_not_RTE: "getComponentName e \<notin> set HTML_RTE_COMPONENTS"
  by (simp add: getComponentName_def Let_def HTML_RTE_COMPONENTS_def)

lemma type_addChildren: "type (addChildren nd k ns) = type nd"
  by (simp add: addChildren_def)

lemma styles_addChildren: "styles (addChildren nd k ns) = styles nd"
  by (simp add: addChildren_def)

lemma mergeLineBreaks_boxed:
  "mergeLineBreaks host ms txt cs childProps pushes boxed n = Inr (finalProps, finalPushes, finalBoxed, n')
   \<Longrightarrow> finalBoxed = (boxed \<or> list_ex isTextNode cs)"
proof (induction cs arbitrary: childProps pushes boxed n)
  case Nil
  then show ?case by simp
next
  case (Cons c cs)
  show ?case
  proof (cases c)
    case (ElementChild e)
    with Cons.prems Cons.IH show ?thesis
      by (auto split: if_splits sum.splits option.splits prod.splits)
  next
    case (TextChild t)
    with Cons.prems Cons.IH show ?thesis by auto
  next
    case (OtherChild name)
    with Cons.prems Cons.IH show ?thesis by (auto split: if_splits)
  qed
qed

lemma selectComponent_sound:
  "selectComponent fid ms = Some (entry, matched) \<Longrightarrow>
   entry \<in> set ms \<and> findNodeId fid entry = Some matched"
  unfolding selectComponent_def
proof (induction ms arbitrary: entry matched rule: rev_induct)
  case Nil
  then show ?case by simp
next
  case (snoc m ms)
  then show ?case
    by (cases "findNodeId fid m") (auto simp: selectStep_def)
qed

lemma findNodeId_sound:
  "findNodeId fid entry = Some matched \<Longrightarrow> matched \<in> set (nodeIds entry) \<and> fid = Some (nodeId matched)"
  by (auto simp: findNodeId_def find_Some_iff)

section \<open>Lemmas: induction over the document and the two loops\<close>

lemma element_induct [case_names Element]:
  assumes step: "\<And>d cs. (\<And>e. ElementChild e \<in> set cs \<Longrightarrow> P e) \<Longrightarrow> P (Element d cs)"
  shows "P e"
proof -
  have "P e" and "\<forall>x. c = ElementChild x \<longrightarrow> P x"
  proof (induction e and c)
    case (Element d cs)
    show ?case
    proof (rule step)
      fix e assume "ElementChild e \<in> set cs"
      with Element.IH show "P e" by blast
    qed
  qed simp_all
  then show ?thesis by simp
qed

lemma processChildNodes_all:
  assumes kids: "\<forall>e n0 c n1. ElementChild e \<in> set cs \<longrightarrow>
                   convertHTMLToComposableJSON host ms e n0 = Inr (Some c, n1) \<longrightarrow> Q c"
    and acc: "list_all Q childList"
    and r: "processChildNodes host ms isAnchor tc cs nodeProps childList n = Inr (finalProps, finalList, n')"
  shows "list_all Q finalList"
  using kids acc r
proof (induction cs arbitrary: nodeProps childList n)
  case Nil
  then show ?case by simp
next
  case (Cons c cs)
  have kids': "\<forall>e n0 c n1. ElementChild e \<in> set cs \<longrightarrow>
                 convertHTMLToComposableJSON host ms e n0 = Inr (Some c, n1) \<longrightarrow> Q c"
    using Cons.prems(1) by simp
  show ?case
  proof (cases c)
    case (ElementChild e)
    show ?thesis
    proof (cases "convertHTMLToComposableJSON host ms e n")
      case (Inl err)
      with Cons.prems(3) ElementChild show ?thesis by simp
    next
      case (Inr res)
      obtain x y where res: "res = (x, y)" by (cases res)
      show ?thesis
      proof (cases x)
        case None
        with Cons.prems(3) ElementChild Inr res
        have "processChildNodes host ms isAnchor tc cs nodeProps childList y = Inr (finalProps, finalList, n')"
          by simp
        then show ?thesis by (rule Cons.IH [OF kids' Cons.prems(2)])
      next
        case (Some nd)
        with Cons.prems(3) ElementChild Inr res
        have step: "processChildNodes host ms isAnchor tc cs nodeProps (childList @ [nd]) y
                    = Inr (finalProps, finalList, n')"
          by simp
        from Cons.prems(1) ElementChild Inr res Some have "Q nd" by simp
        with Cons.prems(2) have "list_all Q (childList @ [nd])" by simp
        from Cons.IH [OF kids' this step] show ?thesis .
      qed
    qed
  next
    case (TextChild t)
    with Cons.prems(3) have "processChildNodes host ms isAnchor tc cs
        (if \<not> isAnchor then handleTextNode tc nodeProps [] else nodeProps) childList n
        = Inr (finalProps, finalList, n')" by simp
    then show ?thesis by (rule Cons.IH [OF kids' Cons.prems(2)])
  next
    case (OtherChild name)
    with Cons.prems(3) have "processChildNodes host ms isAnchor tc cs nodeProps childList n
        = Inr (finalProps, finalList, n')" by simp
    then show ?thesis by (rule Cons.IH [OF kids' Cons.prems(2)])
  qed
qed

lemma mergeLineBreaks_all:
  assumes kids: "\<forall>e n0 c n1. ElementChild e \<in> set cs \<longrightarrow>
                   convertHTMLToComposableJSON host ms e n0 = Inr (Some c, n1) \<longrightarrow> Q c"
    and acc: "list_all (pushedHolds' Q) pushes"
    and r: "mergeLineBreaks host ms tc cs childProps pushes boxed n
            = Inr (finalProps, finalPushes, finalBoxed, n')"
    and merged: "pushedHolds' Q Merged" and conv: "\<And>c. pushedHolds' Q (Converted c) = Q c"
  shows "list_all (pushedHolds' Q) finalPushes"
  using kids acc r
proof (induction cs arbitrary: childProps pushes boxed n)
  case Nil
  then show ?case by simp
next
  case (Cons c cs)
  have kids': "\<forall>e n0 c n1. ElementChild e \<in> set cs \<longrightarrow>
                 convertHTMLToComposableJSON host ms e n0 = Inr (Some c, n1) \<longrightarrow> Q c"
    using Cons.prems(1) by simp
  show ?case
  proof (cases c)
    case (ElementChild e)
    show ?thesis
    proof (cases "toLowerCase (nodeName (ElementChild e)) = ''br''")
      case True
      with Cons.prems(3) ElementChild
      have "mergeLineBreaks host ms tc cs childProps pushes boxed n
            = Inr (finalProps, finalPushes, finalBoxed, n')" by simp
      then show ?thesis by (rule Cons.IH [OF kids' Cons.prems(2)])
    next
      case nbr: False
      show ?thesis
      proof (cases "convertHTMLToComposableJSON host ms e n")
        case (Inl err)
        with Cons.prems(3) ElementChild nbr show ?thesis by simp
      next
        case (Inr res)
        obtain x y where res: "res = (x, y)" by (cases res)
        show ?thesis
        proof (cases x)
          case None
          with Cons.prems(3) ElementChild Inr res nbr
          have "mergeLineBreaks host ms tc cs childProps pushes boxed y
                = Inr (finalProps, finalPushes, finalBoxed, n')"
            by simp
          then show ?thesis by (rule Cons.IH [OF kids' Cons.prems(2)])
        next
          case (Some nd)
          with Cons.prems(3) ElementChild Inr res nbr
          have step: "mergeLineBreaks host ms tc cs childProps (pushes @ [Converted nd]) boxed y
                      = Inr (finalProps, finalPushes, finalBoxed, n')"
            by simp
          from Cons.prems(1) ElementChild Inr res Some have "Q nd" by simp
          with Cons.prems(2) conv have "list_all (pushedHolds' Q) (pushes @ [Converted nd])" by simp
          from Cons.IH [OF kids' this step] show ?thesis .
        qed
      qed
    qed
  next
    case (TextChild t)
    with Cons.prems(3) have step: "mergeLineBreaks host ms tc cs
        (handleTextNode tc childProps (textStaticString childProps))
        (if nextIsBoundary cs then pushes @ [Merged] else pushes) True n
        = Inr (finalProps, finalPushes, finalBoxed, n')" by simp
    from Cons.prems(2) merged
    have "list_all (pushedHolds' Q) (if nextIsBoundary cs then pushes @ [Merged] else pushes)"
      by simp
    from Cons.IH [OF kids' this step] show ?thesis .
  next
    case (OtherChild name)
    with Cons.prems(3) have "mergeLineBreaks host ms tc cs childProps pushes boxed n
        = Inr (finalProps, finalPushes, finalBoxed, n')" by (simp split: if_splits)
    then show ?thesis by (rule Cons.IH [OF kids' Cons.prems(2)])
  qed
qed

lemma convert_invariant:
  "convertHTMLToComposableJSON host ms e n = Inr (Some nd, n') \<Longrightarrow> everyNode slotInvariant nd"
proof (induction e arbitrary: n nd n' rule: element_induct)
  case (Element d cs)
  have kids: "\<forall>e n0 c n1. ElementChild e \<in> set cs \<longrightarrow>
                convertHTMLToComposableJSON host ms e n0 = Inr (Some c, n1) \<longrightarrow> everyNode slotInvariant c"
    using Element.IH by blast
  from Element.prems show ?case
  proof (cases rule: convert_cases)
    case (Mapped c)
    then show ?thesis
      by (simp add: everyNode_leaf slots_handleCustomComponents)
  next
    case (LineBreak finalProps finalPushes finalBoxed)
    have "list_all (pushedHolds slotInvariant) finalPushes"
      by (rule mergeLineBreaks_all [where Q = "everyNode slotInvariant" and pushes = "[]",
            OF kids _ LineBreak(3)]) simp_all
    then have "list_all (everyNode slotInvariant)
                 (map (resolvePushed
                        (Node (getComponentName (Element d cs)) (Suc (Suc n)) Map.empty finalProps []
                           (getElementResponsiveStyles host (Element d cs)))) finalPushes)"
      by (intro resolve_all everyNode_leaf) simp_all
    then show ?thesis
      unfolding LineBreak(4) by (intro everyNode_addChildren) simp_all
  next
    case Terminal
    from Terminal(4) show ?thesis by (rule everyNode_leaf)
  next
    case (Default finalProps finalList)
    have "list_all (everyNode slotInvariant) finalList"
      by (rule processChildNodes_all [where Q = "everyNode slotInvariant" and childList = "[]",
            OF kids _ Default(5)]) simp_all
    then show ?thesis
      unfolding Default(6) by (intro everyNode_addChildren) simp_all
  qed
qed

lemma linkProps_no_children: "linkProps e ''children'' = None"
  by (simp add: linkProps_def Let_def handleButtonElement_def handleLinkElement_def)

section \<open>Lemmas: exceptions\<close>

lemma processChildNodes_error:
  assumes kids: "\<forall>e n0. ElementChild e \<in> set cs \<longrightarrow> convertHTMLToComposableJSON host ms e n0 \<noteq> Inl x"
  shows "processChildNodes host ms isAnchor tc cs nodeProps childList n \<noteq> Inl x"
  using kids
proof (induction cs arbitrary: nodeProps childList n)
  case Nil
  then show ?case by simp
next
  case (Cons c cs)
  have kids': "\<forall>e n0. ElementChild e \<in> set cs \<longrightarrow> convertHTMLToComposableJSON host ms e n0 \<noteq> Inl x"
    using Cons.prems by simp
  note ih = Cons.IH [OF kids']
  show ?case
  proof (cases c)
    case (ElementChild e)
    from Cons.prems ElementChild have "convertHTMLToComposableJSON host ms e n \<noteq> Inl x" by simp
    with ElementChild ih show ?thesis
      by (cases "convertHTMLToComposableJSON host ms e n") (auto split: option.splits)
  next
    case (TextChild t)
    with ih show ?thesis by simp
  next
    case (OtherChild name)
    with ih show ?thesis by simp
  qed
qed

lemma mergeLineBreaks_error:
  assumes kids: "\<forall>e n0. ElementChild e \<in> set cs \<longrightarrow> convertHTMLToComposableJSON host ms e n0 \<noteq> Inl x"
  shows "mergeLineBreaks host ms tc cs childProps pushes boxed n \<noteq> Inl x"
  using kids
proof (induction cs arbitrary: childProps pushes boxed n)
  case Nil
  then show ?case by simp
next
  case (Cons c cs)
  have kids': "\<forall>e n0. ElementChild e \<in> set cs \<longrightarrow> convertHTMLToComposableJSON host ms e n0 \<noteq> Inl x"
    using Cons.prems by simp
  note ih = Cons.IH [OF kids']
  show ?case
  proof (cases c)
    case (ElementChild e)
    from Cons.prems ElementChild have "convertHTMLToComposableJSON host ms e n \<noteq> Inl x" by simp
    with ElementChild ih show ?thesis
      by (cases "convertHTMLToComposableJSON host ms e n") (auto split: option.splits)
  next
    case (TextChild t)
    with ih show ?thesis by simp
  next
    case (OtherChild name)
    with ih show ?thesis by simp
  qed
qed

lemma convert_error_cases:
  assumes r: "convertHTMLToComposableJSON host ms (Element d cs) n = Inl x"
  shows "x = InvalidImageUrl \<or> x = VideoWithoutSource
         \<or> (\<exists>tc ps n0. mergeLineBreaks host ms tc cs Map.empty [] False n0 = Inl x)
         \<or> (\<exists>isAnchor tc ps n0. processChildNodes host ms isAnchor tc cs ps [] n0 = Inl x)"
proof -
  from r have nb: "toLowerCase (tagName d) \<noteq> ''br''"
    by auto
  have nm: "appliedComponent (selectComponent (getAttribute (Element d cs) ''data-figma-id'') ms) = None"
  proof (cases "appliedComponent (selectComponent (getAttribute (Element d cs) ''data-figma-id'') ms)")
    case None
    then show ?thesis .
  next
    case (Some c)
    with r nb show ?thesis by (simp add: Let_def)
  qed
  have nodiv: "(toLowerCase (tagName d) = ''div'' \<and> cs = [] \<and> textContent (Element d cs) \<noteq> []) = False"
    by auto
  have rte: "(getComponentName (Element d cs) \<in> set HTML_RTE_COMPONENTS) = False"
    using getComponentName_not_RTE by simp
  show ?thesis
  proof (cases "list_ex (\<lambda>c. toLowerCase (nodeName c) = ''br'') cs")
    case True
    with r nb nm have "mergeLineBreaks host ms (getFullTextContent (Element d cs)) cs Map.empty [] False
                         (Suc (Suc (Suc n))) = Inl x"
      by (auto simp: nodiv rte Let_def simp del: textContent.simps split: sum.splits prod.splits)
    then show ?thesis by blast
  next
    case nbr: False
    show ?thesis
    proof (cases "toLowerCase (tagName d) = ''svg''")
      case True
      with r nb nm nbr show ?thesis
        by (simp add: nodiv rte Let_def del: textContent.simps)
    next
      case nt: False
      show ?thesis
      proof (cases "tagName d \<in> set MEDIA_TAGS")
        case True
        with r nb nm nbr nt show ?thesis
          by (auto simp: nodiv rte Let_def handleImageElement_def handleVideoElement_def
              simp del: textContent.simps
              split: sum.splits prod.splits if_splits option.splits list.splits)
      next
        case nmedia: False
        with r nb nm nbr nt
        have "processChildNodes host ms (toLowerCase (tagName d) = ''a'')
                (getFullTextContent (Element d cs)) cs (linkProps (Element d cs)) [] (Suc (Suc n)) = Inl x"
          by (auto simp: nodiv rte Let_def linkProps_def simp del: textContent.simps
              split: sum.splits prod.splits if_splits)
        then show ?thesis by blast
      qed
    qed
  qed
qed

lemma convert_no_baseline_error:
  "convertHTMLToComposableJSON host ms e n \<noteq> Inl BaselineFrameUnavailable"
proof (induction e arbitrary: n rule: element_induct)
  case (Element d cs)
  have kids: "\<forall>e n0. ElementChild e \<in> set cs \<longrightarrow>
                convertHTMLToComposableJSON host ms e n0 \<noteq> Inl BaselineFrameUnavailable"
    using Element.IH by blast
  show ?case
  proof
    assume "convertHTMLToComposableJSON host ms (Element d cs) n = Inl BaselineFrameUnavailable"
    from convert_error_cases [OF this]
      processChildNodes_error [OF kids] mergeLineBreaks_error [OF kids]
    show False by auto
  qed
qed

lemma convert_styles:
  assumes r: "convertHTMLToComposableJSON host ms e n = Inr (Some nd, n')"
  shows "styles nd = getElementResponsiveStyles host e"
proof -
  obtain d cs where e: "e = Element d cs" by (cases e)
  from r [unfolded e] show ?thesis
    unfolding e
    by (cases rule: convert_cases) (simp_all add: styles_addChildren handleCustomComponents_def)
qed

section \<open>Lemmas: strings and text\<close>

lemma last_dropWhile: "dropWhile P xs \<noteq> [] \<Longrightarrow> last (dropWhile P xs) = last xs"
  by (induction xs) (auto split: if_splits)

lemma trim_no_leading_space: "dropWhile isSpace (trim s) = trim s"
proof (cases "trim s = []")
  case True
  then show ?thesis by simp
next
  case False
  let ?u = "dropWhile isSpace s"
  let ?w = "dropWhile isSpace (rev ?u)"
  from False have w: "?w \<noteq> []" by (simp add: trim_def)
  have u: "?u \<noteq> []"
  proof
    assume e: "?u = []"
    from w show False unfolding e by simp
  qed
  have "hd (trim s) = last ?w"
    using w by (simp add: trim_def hd_rev)
  also have "\<dots> = last (rev ?u)"
    using w by (rule last_dropWhile)
  also have "\<dots> = hd ?u"
    using u by (simp add: last_rev)
  finally have "\<not> isSpace (hd (trim s))"
    using u hd_dropWhile [of isSpace s] by simp
  then show ?thesis
    by (simp add: dropWhile_eq_self_iff)
qed

lemma trim_idem: "trim (trim s) = trim s"
proof -
  have "trim (trim s) = rev (dropWhile isSpace (rev (dropWhile isSpace (trim s))))"
    by (simp add: trim_def)
  also have "\<dots> = rev (dropWhile isSpace (rev (trim s)))"
    by (simp only: trim_no_leading_space)
  also have "\<dots> = trim s"
    by (simp add: trim_def)
  finally show ?thesis .
qed

lemma stripTrailingDots_not_dots: "stripTrailingDots s \<noteq> ''...''"
proof (cases "3 \<le> length (takeWhile (\<lambda>c. c = CHR ''.'') (rev s))")
  case True
  show ?thesis
  proof
    assume "stripTrailingDots s = ''...''"
    with True have "rev (dropWhile (\<lambda>c. c = CHR ''.'') (rev s)) = ''...''"
      by (simp add: stripTrailingDots_def)
    then have "rev (rev (dropWhile (\<lambda>c. c = CHR ''.'') (rev s))) = rev ''...''"
      by (rule arg_cong)
    then have eq: "dropWhile (\<lambda>c. c = CHR ''.'') (rev s) = ''...''"
      by simp
    then have "hd (dropWhile (\<lambda>c. c = CHR ''.'') (rev s)) = CHR ''.''"
      by simp
    moreover from eq have "dropWhile (\<lambda>c. c = CHR ''.'') (rev s) \<noteq> []" by simp
    ultimately show False
      using hd_dropWhile [of "\<lambda>c. c = CHR ''.''" "rev s"] by simp
  qed
next
  case False
  show ?thesis
  proof
    assume "stripTrailingDots s = ''...''"
    with False have "s = ''...''" by (simp add: stripTrailingDots_def)
    with False show False by simp
  qed
qed

lemma handleTextNode_idem:
  "handleTextNode tc (handleTextNode tc p []) [] = handleTextNode tc p []"
  by (simp add: handleTextNode_def Let_def)

lemma processChildNodes_props:
  "processChildNodes host ms isAnchor tc cs nodeProps childList n = Inr (finalProps, finalList, n')
   \<Longrightarrow> finalProps = (if \<not> isAnchor \<and> list_ex isTextNode cs then handleTextNode tc nodeProps []
                    else nodeProps)"
proof (induction cs arbitrary: nodeProps childList n)
  case Nil
  then show ?case by simp
next
  case (Cons c cs)
  show ?case
  proof (cases c)
    case (ElementChild e)
    show ?thesis
    proof (cases "convertHTMLToComposableJSON host ms e n")
      case (Inl err)
      with Cons.prems ElementChild show ?thesis by simp
    next
      case (Inr res)
      obtain x y where res: "res = (x, y)" by (cases res)
      show ?thesis
      proof (cases x)
        case None
        with Cons.prems ElementChild Inr res
        have "processChildNodes host ms isAnchor tc cs nodeProps childList y
              = Inr (finalProps, finalList, n')" by simp
        from Cons.IH [OF this] ElementChild show ?thesis by simp
      next
        case (Some nd)
        with Cons.prems ElementChild Inr res
        have "processChildNodes host ms isAnchor tc cs nodeProps (childList @ [nd]) y
              = Inr (finalProps, finalList, n')" by simp
        from Cons.IH [OF this] ElementChild show ?thesis by simp
      qed
    qed
  next
    case (TextChild t)
    with Cons.prems have "processChildNodes host ms isAnchor tc cs
        (if \<not> isAnchor then handleTextNode tc nodeProps [] else nodeProps) childList n
        = Inr (finalProps, finalList, n')" by simp
    from Cons.IH [OF this] TextChild show ?thesis
      by (simp add: handleTextNode_idem)
  next
    case (OtherChild name)
    with Cons.prems have "processChildNodes host ms isAnchor tc cs nodeProps childList n
        = Inr (finalProps, finalList, n')" by simp
    from Cons.IH [OF this] OtherChild show ?thesis by simp
  qed
qed

lemma getFullTextContent_trim: "getFullTextContent e = trim (textContent e)"
  by (simp add: getFullTextContent_def)

lemma stripTrailingDots_Nil: "stripTrailingDots [] = []"
  by (simp add: stripTrailingDots_def)

lemma handleTextNode_text:
  "p ''text'' = None \<Longrightarrow>
   handleTextNode (trim s) p [] ''text''
     = (if stripTrailingDots (trim s) = [] then None
        else Some (StringProp (Some (stripTrailingDots (trim s)))))"
  by (simp add: handleTextNode_def Let_def trim_idem stripTrailingDots_not_dots stripTrailingDots_Nil)

lemma linkProps_no_text:
  "toLowerCase (tagName (elementData e)) \<noteq> ''a'' \<Longrightarrow> linkProps e ''text'' = None"
  by (simp add: linkProps_def Let_def handleButtonElement_def)

lemma props_addChildren_text: "props (addChildren nd k ns) ''text'' = props nd ''text''"
  by (simp add: addChildren_def)

section \<open>Lemmas: splitting\<close>

lemma splitBy_first:
  "\<forall>x \<in> set a. \<not> P x \<Longrightarrow> P c \<Longrightarrow> splitBy P (a @ c # b) = a # splitBy P b"
  by (induction a) (auto split: list.splits)

lemma splitBy_none: "\<forall>x \<in> set a. \<not> P x \<Longrightarrow> splitBy P a = [a]"
  by (induction a) (auto split: list.splits)

lemma inlineDeclaration_value:
  "inlineDeclaration m d key = Some v \<Longrightarrow>
   m key = Some v
   \<or> (key \<noteq> ''__proto__'' \<and> v \<noteq> []
      \<and> (\<exists>p q more. splitOn (CHR '':'') d = p # q # more \<and> camel (trim p) = key \<and> trim q = v))"
  by (auto simp: inlineDeclaration_def store_def split: list.splits if_splits)

lemma inline_fold_values:
  "foldl inlineDeclaration m ds key = Some v \<Longrightarrow>
   m key = Some v
   \<or> (key \<noteq> ''__proto__'' \<and> v \<noteq> []
      \<and> (\<exists>d \<in> set ds. \<exists>p q more. splitOn (CHR '':'') d = p # q # more
                                  \<and> camel (trim p) = key \<and> trim q = v))"
proof (induction ds arbitrary: m)
  case Nil
  then show ?case by simp
next
  case (Cons d ds)
  from Cons.IH [OF Cons.prems [unfolded foldl_Cons]]
  show ?case
  proof
    assume "inlineDeclaration m d key = Some v"
    from inlineDeclaration_value [OF this] show ?thesis by auto
  next
    assume "key \<noteq> ''__proto__'' \<and> v \<noteq> []
      \<and> (\<exists>d \<in> set ds. \<exists>p q more. splitOn (CHR '':'') d = p # q # more
                                  \<and> camel (trim p) = key \<and> trim q = v)"
    then show ?thesis by auto
  qed
qed

section \<open>Evaluation of the examples\<close>

lemmas string_defs = toLowerCase_def toLowerChar_def toUpperChar_def isLowerAZ_def trim_def isSpace_def
  stripTrailingDots_def startsWith_def splitOn_def isAsciiWhitespace_def

lemmas page_defs = htmlElement_def plainStyle_def pageHost_def emptyBaselineHost_def failingHost_def
  heroEntry_def cardEntry_def unnamedEntry_def emptyIdEntry_def

lemmas dom_defs = getAttribute_def className_def classList_def children_def hasOnlyTextContent_def
  getComponentName_def

lemmas convert_defs = selectComponent_def selectStep_def findNodeId_def appliedComponent_def
  handleCustomComponents_def addChildren_def HTML_RTE_COMPONENTS_def MEDIA_TAGS_def
  getFullTextContent_def hasTruncation_def handleTextNode_def textStaticString_def
  handleButtonElement_def handleLinkElement_def handleImageElement_def handleVideoElement_def
  emitted_def Let_def

lemmas eval_defs = string_defs page_defs dom_defs convert_defs

lemma mappedDiv_type:
  "map_option type (emitted (convertHTMLToComposableJSON pageHost [heroEntry, cardEntry] mappedDiv 0))
     = Some ''Card''"
  by (simp add: mappedDiv_def string_defs page_defs dom_defs convert_defs)

lemma twoLines_eval:
  "\<exists>nd n'. convertHTMLToComposableJSON pageHost [] twoLines 0 = Inr (Some nd, n')"
  by (simp add: twoLines_def string_defs page_defs dom_defs convert_defs)

section \<open>C1: which mapping entry is applied\<close>

text \<open>
  C1 (as stated, refuted): the element \<open>mappedDiv\<close> carries the id \<open>n1\<close>, which occurs in both
  entries of the list. The first entry in list order that contains the id is \<open>heroEntry\<close>
  (component \<open>Hero\<close>), but the \<open>forEach\<close> overwrites \<open>component\<close> at every match and
  has no early exit: the entry applied is \<open>cardEntry\<close>, and the emitted node has type \<open>Card\<close>.
\<close>

theorem first_entry_not_applied_counterexample:
  "find (\<lambda>m. findNodeId (getAttribute mappedDiv ''data-figma-id'') m \<noteq> None) [heroEntry, cardEntry]
     = Some heroEntry
   \<and> codeComponentName heroEntry = ''Hero''
   \<and> map_option fst (selectComponent (getAttribute mappedDiv ''data-figma-id'') [heroEntry, cardEntry])
     = Some cardEntry
   \<and> map_option type (emitted (convertHTMLToComposableJSON pageHost [heroEntry, cardEntry] mappedDiv 0))
     = Some ''Card''"
proof (intro conjI)
  show "find (\<lambda>m. findNodeId (getAttribute mappedDiv ''data-figma-id'') m \<noteq> None) [heroEntry, cardEntry]
     = Some heroEntry"
    by (simp add: mappedDiv_def htmlElement_def getAttribute_def findNodeId_def heroEntry_def)
  show "codeComponentName heroEntry = ''Hero''"
    by (simp add: heroEntry_def)
  show "map_option fst (selectComponent (getAttribute mappedDiv ''data-figma-id'') [heroEntry, cardEntry])
     = Some cardEntry"
    by (simp add: mappedDiv_def htmlElement_def getAttribute_def findNodeId_def selectComponent_def
        selectStep_def heroEntry_def cardEntry_def)
  show "map_option type (emitted (convertHTMLToComposableJSON pageHost [heroEntry, cardEntry] mappedDiv 0))
     = Some ''Card''"
    by (rule mappedDiv_type)
qed

text \<open>
  C1 (amended): for every element carrying a correlation id \<open>i\<close> that occurs in entries of
  the supplied mapping list, the entry selected for it is the last entry in list order
  whose \<open>nodeIds\<close> contains \<open>i\<close>, with the first matching id inside that entry; when \<open>i\<close>
  is not empty and the element is not a \<open>br\<close>, this is the entry that
  \<open>handleCustomComponents\<close> applies to the emitted node.
\<close>

theorem applied_entry_is_last_match:
  assumes "componentMappings = earlier @ entry # later"
    and "nodeIds entry = before @ matched # after"
    and "nodeId matched = i"
    and "\<forall>x \<in> set before. nodeId x \<noteq> i"
    and "\<forall>m \<in> set later. \<forall>x \<in> set (nodeIds m). nodeId x \<noteq> i"
  shows "selectComponent (Some i) componentMappings = Some (entry, matched)
         \<and> (i \<noteq> [] \<and> getAttribute (Element d cs) ''data-figma-id'' = Some i
              \<and> toLowerCase (tagName d) \<noteq> ''br''
            \<longrightarrow> emitted (convertHTMLToComposableJSON host componentMappings (Element d cs) n)
                  = Some (handleCustomComponents
                            (Node (getComponentName (Element d cs)) n
                               (getElementAttributes (Element d cs)) Map.empty []
                               (getElementResponsiveStyles host (Element d cs)))
                            (entry, matched)))"
proof -
  have sel: "selectComponent (Some i) componentMappings = Some (entry, matched)"
    using assms by (rule selectComponent_last_matching_entry)
  with assms(3) show ?thesis
    by (simp add: appliedComponent_def emitted_def Let_def)
qed

text \<open>
  The two-entry list again: the last entry with the id \<open>n1\<close> is \<open>cardEntry\<close>, and inside it the
  first of its two ids \<open>n1\<close> (variant \<open>v1\<close>) is taken.
\<close>

theorem applied_entry_is_last_match_witness:
  "selectComponent (Some ''n1'') [heroEntry, cardEntry]
     = Some (cardEntry, \<lparr>nodeId = ''n1'', variantProperties = ''v1''\<rparr>)
   \<and> map_option type (emitted (convertHTMLToComposableJSON pageHost [heroEntry, cardEntry] mappedDiv 0))
     = Some ''Card''"
proof -
  have 1: "[heroEntry, cardEntry] = [heroEntry] @ cardEntry # []" by simp
  have 2: "nodeIds cardEntry = [\<lparr>nodeId = ''n0'', variantProperties = []\<rparr>]
             @ \<lparr>nodeId = ''n1'', variantProperties = ''v1''\<rparr>
             # [\<lparr>nodeId = ''n1'', variantProperties = ''v2''\<rparr>]"
    by (simp add: cardEntry_def)
  have 3: "nodeId \<lparr>nodeId = ''n1'', variantProperties = ''v1''\<rparr> = ''n1''" by simp
  have 4: "\<forall>x \<in> set [\<lparr>nodeId = ''n0'', variantProperties = []\<rparr>]. nodeId x \<noteq> ''n1''" by simp
  have 5: "\<forall>m \<in> set []. \<forall>x \<in> set (nodeIds m). nodeId x \<noteq> ''n1''" by simp
  let ?d = "\<lparr>tagName = ''DIV'', attributes = [(''data-figma-id'', ''n1'')], computedStyle = plainStyle,
            parentComputedStyle = Some plainStyle, styleOverflow = [], styleTextOverflow = []\<rparr>"
  let ?cs = "[ElementChild (htmlElement ''VIDEO'' [] [])]"
  have md: "Element ?d ?cs = mappedDiv"
    by (simp add: mappedDiv_def htmlElement_def)
  note t = applied_entry_is_last_match [OF 1 2 3 4 5, of ?d ?cs pageHost 0, unfolded md]
  have pre: "''n1'' \<noteq> [] \<and> getAttribute mappedDiv ''data-figma-id'' = Some ''n1''
             \<and> toLowerCase (tagName ?d) \<noteq> ''br''"
    by (simp add: mappedDiv_def htmlElement_def getAttribute_def string_defs)
  from t pre
  have "selectComponent (Some ''n1'') [heroEntry, cardEntry]
          = Some (cardEntry, \<lparr>nodeId = ''n1'', variantProperties = ''v1''\<rparr>)"
    and "emitted (convertHTMLToComposableJSON pageHost [heroEntry, cardEntry] mappedDiv 0)
          = Some (handleCustomComponents
                    (Node (getComponentName mappedDiv) 0 (getElementAttributes mappedDiv) Map.empty []
                       (getElementResponsiveStyles pageHost mappedDiv))
                    (cardEntry, \<lparr>nodeId = ''n1'', variantProperties = ''v1''\<rparr>))"
    by blast+
  then show ?thesis
    by (simp add: handleCustomComponents_def cardEntry_def)
qed

section \<open>C2: the combined style mode is the disjunction of the two single modes\<close>

text \<open>
  C2: for every element and every computed property, inclusion under mode
  \<open>uaDiffPlusInherited\<close> holds exactly when inclusion under \<open>uaDiff\<close> or under
  \<open>inheritedOnly\<close> holds. This is stated for the mode test alone (\<open>includeProperty\<close>), for
  the whole round of the loop with its value check and whitelist (\<open>propertyKept\<close>), for
  the keys collected by the loop, and for the keys of the object that \<open>getAppliedStyles\<close>
  returns; when the baseline frame fails, all three modes fail alike.
\<close>

theorem uaDiffPlusInherited_is_or:
  "includeProperty ''uaDiffPlusInherited'' ps ua prop val
     = (includeProperty ''uaDiff'' ps ua prop val \<or> includeProperty ''inheritedOnly'' ps ua prop val)
   \<and> propertyKept ''uaDiffPlusInherited'' wl cs ps ua prop
     = (propertyKept ''uaDiff'' wl cs ps ua prop \<or> propertyKept ''inheritedOnly'' wl cs ps ua prop)
   \<and> set (map fst (collectStyles ''uaDiffPlusInherited'' wl cs ps ua))
     = set (map fst (collectStyles ''uaDiff'' wl cs ps ua))
       \<union> set (map fst (collectStyles ''inheritedOnly'' wl cs ps ua))
   \<and> (case (getAppliedStyles host e ''uaDiffPlusInherited'' wl,
             getAppliedStyles host e ''uaDiff'' wl,
             getAppliedStyles host e ''inheritedOnly'' wl) of
         (Inr combined, Inr diff, Inr inherited) \<Rightarrow> dom combined = dom diff \<union> dom inherited
       | (Inl e1, Inl e2, Inl e3) \<Rightarrow> True
       | _ \<Rightarrow> False)"
proof (intro conjI)
  show "includeProperty ''uaDiffPlusInherited'' ps ua prop val
     = (includeProperty ''uaDiff'' ps ua prop val \<or> includeProperty ''inheritedOnly'' ps ua prop val)"
    by (rule includeProperty_or)
  show "propertyKept ''uaDiffPlusInherited'' wl cs ps ua prop
     = (propertyKept ''uaDiff'' wl cs ps ua prop \<or> propertyKept ''inheritedOnly'' wl cs ps ua prop)"
    by (rule propertyKept_or)
  show "set (map fst (collectStyles ''uaDiffPlusInherited'' wl cs ps ua))
     = set (map fst (collectStyles ''uaDiff'' wl cs ps ua))
       \<union> set (map fst (collectStyles ''inheritedOnly'' wl cs ps ua))"
    unfolding collectStyles_keys by (auto simp: propertyKept_or)
  show "case (getAppliedStyles host e ''uaDiffPlusInherited'' wl,
             getAppliedStyles host e ''uaDiff'' wl,
             getAppliedStyles host e ''inheritedOnly'' wl) of
         (Inr combined, Inr diff, Inr inherited) \<Rightarrow> dom combined = dom diff \<union> dom inherited
       | (Inl e1, Inl e2, Inl e3) \<Rightarrow> True
       | _ \<Rightarrow> False"
  proof (cases "baselineFrame host")
    case None
    then show ?thesis by (simp add: getAppliedStyles_def)
  next
    case (Some baseline)
    from getAppliedStyles_dom [OF Some, of e "''uaDiffPlusInherited''" wl]
      getAppliedStyles_dom [OF Some, of e "''uaDiff''" wl]
      getAppliedStyles_dom [OF Some, of e "''inheritedOnly''" wl]
    show ?thesis
      by (auto simp: propertyKept_or)
  qed
qed

text \<open>
  On \<open>plainStyle\<close> with an equal parent and an equal baseline: \<open>color\<close> is inherited and not
  different from the baseline, so the combined mode includes it through \<open>inheritedOnly\<close>;
  \<open>display\<close> passes neither test and is excluded; against an empty baseline and without a
  parent, \<open>display\<close> is included through \<open>uaDiff\<close>.
\<close>

theorem uaDiffPlusInherited_is_or_witness:
  "includeProperty ''uaDiffPlusInherited'' (Some plainStyle) (getPropertyValue plainStyle) ''color'' ''rgb(0, 0, 0)''
   \<and> \<not> includeProperty ''uaDiff'' (Some plainStyle) (getPropertyValue plainStyle) ''color'' ''rgb(0, 0, 0)''
   \<and> includeProperty ''inheritedOnly'' (Some plainStyle) (getPropertyValue plainStyle) ''color'' ''rgb(0, 0, 0)''
   \<and> \<not> includeProperty ''uaDiffPlusInherited'' (Some plainStyle) (getPropertyValue plainStyle) ''display'' ''block''
   \<and> includeProperty ''uaDiffPlusInherited'' None (\<lambda>p. []) ''display'' ''block''"
proof -
  have a: "\<not> includeProperty ''uaDiff'' (Some plainStyle) (getPropertyValue plainStyle) ''color'' ''rgb(0, 0, 0)''"
    by (simp add: includeProperty_def plainStyle_def)
  have b: "includeProperty ''inheritedOnly'' (Some plainStyle) (getPropertyValue plainStyle) ''color'' ''rgb(0, 0, 0)''"
    by (simp add: includeProperty_def plainStyle_def INHERITABLE_def)
  have c: "\<not> includeProperty ''uaDiff'' (Some plainStyle) (getPropertyValue plainStyle) ''display'' ''block''"
    by (simp add: includeProperty_def plainStyle_def)
  have d: "\<not> includeProperty ''inheritedOnly'' (Some plainStyle) (getPropertyValue plainStyle) ''display'' ''block''"
    by (simp add: includeProperty_def plainStyle_def INHERITABLE_def)
  have e: "includeProperty ''uaDiff'' None (\<lambda>p. []) ''display'' ''block''"
    by (simp add: includeProperty_def)
  note t = uaDiffPlusInherited_is_or [THEN conjunct1]
  from a b c d e t [of "Some plainStyle" "getPropertyValue plainStyle" "''color''" "''rgb(0, 0, 0)''"]
    t [of "Some plainStyle" "getPropertyValue plainStyle" "''display''" "''block''"]
    t [of None "\<lambda>p. []" "''display''" "''block''"]
  show ?thesis by blast
qed

section \<open>C3: a mapped element is a terminal node\<close>

text \<open>
  C3 (as stated, refuted), at three inputs. The id of \<open>unnamedDiv\<close> matches \<open>unnamedEntry\<close>,
  whose component name is empty: \<open>handleCustomComponents\<close> tests
  \<open>if (component.codeComponentName)\<close> and leaves the classifier's \<open>box\<close>. The id of
  \<open>mappedDiv\<close> matches \<open>heroEntry\<close>, but the node has the type of the later entry
  \<open>cardEntry\<close>. The empty id of \<open>emptyIdDiv\<close> matches \<open>emptyIdEntry\<close>, but
  \<open>if (component?.nodeId)\<close> is false for the empty string and the element is converted
  as if unmapped.
\<close>

theorem mapped_type_counterexample:
  "findNodeId (getAttribute unnamedDiv ''data-figma-id'') unnamedEntry \<noteq> None
   \<and> codeComponentName unnamedEntry = []
   \<and> map_option type (emitted (convertHTMLToComposableJSON pageHost [unnamedEntry] unnamedDiv 0))
       = Some ''box''
   \<and> findNodeId (getAttribute mappedDiv ''data-figma-id'') heroEntry \<noteq> None
   \<and> codeComponentName heroEntry = ''Hero''
   \<and> map_option type (emitted (convertHTMLToComposableJSON pageHost [heroEntry, cardEntry] mappedDiv 0))
       = Some ''Card''
   \<and> findNodeId (getAttribute emptyIdDiv ''data-figma-id'') emptyIdEntry \<noteq> None
   \<and> codeComponentName emptyIdEntry = ''Ghost''
   \<and> map_option type (emitted (convertHTMLToComposableJSON pageHost [emptyIdEntry] emptyIdDiv 0))
       = Some ''box''"
  by (simp add: unnamedDiv_def mappedDiv_def emptyIdDiv_def eval_defs)

text \<open>
  C3 (amended): for every element other than a \<open>br\<close> to which a mapping entry is applied
  (its correlation id is not empty, and the entry is the one the \<open>forEach\<close> selects, the
  last that contains the id), the converter returns a node whose type is that entry's
  \<open>codeComponentName\<close> when the name is not empty, and the classifier's verdict
  otherwise; the node's \<open>props\<close> are the entry's \<open>propMappings\<close>, its \<open>slots\<close> stay empty, and
  only the node's own identifier is drawn: the children are not converted.
\<close>

theorem mapped_element_is_terminal:
  assumes nb: "toLowerCase (tagName d) \<noteq> ''br''"
    and ap: "appliedComponent (selectComponent (getAttribute (Element d cs) ''data-figma-id'') ms)
               = Some (entry, matched)"
  shows "\<exists>nd. convertHTMLToComposableJSON host ms (Element d cs) n = Inr (Some nd, Suc n)
           \<and> type nd = (if codeComponentName entry \<noteq> [] then codeComponentName entry
                        else getComponentName (Element d cs))
           \<and> props nd = propMappings entry
           \<and> slots nd = []
           \<and> entry \<in> set ms \<and> matched \<in> set (nodeIds entry) \<and> nodeId matched \<noteq> []
           \<and> getAttribute (Element d cs) ''data-figma-id'' = Some (nodeId matched)"
proof -
  from ap have sel: "selectComponent (getAttribute (Element d cs) ''data-figma-id'') ms = Some (entry, matched)"
    and ne: "nodeId matched \<noteq> []"
    by (auto simp: appliedComponent_def split: option.splits if_splits)
  from selectComponent_sound [OF sel] findNodeId_sound
  have "entry \<in> set ms" "matched \<in> set (nodeIds entry)"
    "getAttribute (Element d cs) ''data-figma-id'' = Some (nodeId matched)"
    by blast+
  with nb ap ne show ?thesis
    by (simp add: Let_def handleCustomComponents_def)
qed

text \<open>
  \<open>mappedDiv\<close> has a \<open>video\<close> child without a \<open>source\<close>, whose conversion would throw; the
  mapped element is converted all the same, to a \<open>Card\<close> with empty slots.
\<close>

theorem mapped_element_is_terminal_witness:
  "\<exists>nd. convertHTMLToComposableJSON pageHost [heroEntry, cardEntry] mappedDiv 0 = Inr (Some nd, Suc 0)
      \<and> type nd = ''Card'' \<and> props nd = propMappings cardEntry \<and> slots nd = []"
proof -
  let ?d = "\<lparr>tagName = ''DIV'', attributes = [(''data-figma-id'', ''n1'')], computedStyle = plainStyle,
            parentComputedStyle = Some plainStyle, styleOverflow = [], styleTextOverflow = []\<rparr>"
  let ?cs = "[ElementChild (htmlElement ''VIDEO'' [] [])]"
  have md: "Element ?d ?cs = mappedDiv"
    by (simp add: mappedDiv_def htmlElement_def)
  have nb: "toLowerCase (tagName ?d) \<noteq> ''br''"
    by (simp add: string_defs)
  have ap: "appliedComponent (selectComponent (getAttribute (Element ?d ?cs) ''data-figma-id'')
              [heroEntry, cardEntry])
            = Some (cardEntry, \<lparr>nodeId = ''n1'', variantProperties = ''v1''\<rparr>)"
    by (simp add: getAttribute_def selectComponent_def selectStep_def findNodeId_def
        appliedComponent_def heroEntry_def cardEntry_def)
  from mapped_element_is_terminal [OF nb ap, of pageHost 0, unfolded md]
  show ?thesis
    by (auto simp: cardEntry_def)
qed

section \<open>C4: when the baseline frame cannot be created\<close>

text \<open>
  C4 (as stated, refuted): on a page where the baseline frame cannot be created,
  \<open>getAppliedStyles\<close> does not fall back to an empty snapshot, it throws. With an empty
  snapshot every property would differ from the baseline, and \<open>styledParagraph\<close> would
  get \<open>color: red\<close> and \<open>display: inline-block\<close> (as on \<open>emptyBaselineHost\<close>); on
  \<open>failingHost\<close> it gets no style property at all.
\<close>

theorem baseline_failure_counterexample:
  "getAppliedStyles failingHost styledParagraph STYLE_MODE SUPPORTED_PROPS = Inl BaselineFrameUnavailable
   \<and> defaultStyles (getElementResponsiveStyles failingHost styledParagraph) ''color'' = None
   \<and> defaultStyles (getElementResponsiveStyles failingHost styledParagraph) ''display'' = None
   \<and> defaultStyles (getElementResponsiveStyles emptyBaselineHost styledParagraph) ''color'' = Some (Str ''red'')
   \<and> defaultStyles (getElementResponsiveStyles emptyBaselineHost styledParagraph) ''display''
       = Some (Str ''inline-block'')"
  by (simp add: styledParagraph_def getElementResponsiveStyles_def getAppliedStyles_def noStyles_def
      STYLE_MODE_def SUPPORTED_PROPS_def INHERITABLE_def collectStyles_def collectStep_def
      propertyKept_def includeProperty_def toCamelObject_def truthy_def isButtonLikeClass_def
      handleInlineStyles_def inlineDeclaration_def handleAdditionalStyles_def
      store_def assign_def eval_defs map_add_def)

text \<open>
  C4 (amended): if the offscreen baseline frame cannot be created, \<open>getAppliedStyles\<close>
  throws in every mode; \<open>getElementResponsiveStyles\<close> catches the exception and returns
  empty maps for the three breakpoints, so the computed, the class-derived and the inline
  styles of the element are all dropped; the conversion is not aborted by that exception,
  and every node it returns for an element has empty styles.
\<close>

theorem baseline_failure_gives_empty_styles:
  assumes "baselineFrame host = None"
  shows "getAppliedStyles host e mode whitelist = Inl BaselineFrameUnavailable
         \<and> getElementResponsiveStyles host e = noStyles
         \<and> convertHTMLToComposableJSON host ms e n \<noteq> Inl BaselineFrameUnavailable
         \<and> (\<forall>nd n'. convertHTMLToComposableJSON host ms e n = Inr (Some nd, n')
               \<longrightarrow> styles nd = noStyles)"
proof -
  from assms have a: "getAppliedStyles host e mode whitelist = Inl BaselineFrameUnavailable" for mode whitelist
    by (simp add: getAppliedStyles_def)
  then have b: "getElementResponsiveStyles host e = noStyles"
    by (simp add: getElementResponsiveStyles_def)
  from a b convert_no_baseline_error convert_styles show ?thesis
    by auto
qed

text \<open>
  \<open>styledParagraph\<close> on \<open>failingHost\<close>: the conversion returns a node, with empty styles.
\<close>

theorem baseline_failure_gives_empty_styles_witness:
  "baselineFrame failingHost = None
   \<and> getAppliedStyles failingHost styledParagraph STYLE_MODE SUPPORTED_PROPS = Inl BaselineFrameUnavailable
   \<and> getElementResponsiveStyles failingHost styledParagraph = noStyles
   \<and> (\<exists>nd n'. convertHTMLToComposableJSON failingHost [] styledParagraph 0 = Inr (Some nd, n')
         \<and> styles nd = noStyles)"
proof -
  have f: "baselineFrame failingHost = None"
    by (simp add: failingHost_def)
  have "\<exists>nd n'. convertHTMLToComposableJSON failingHost [] styledParagraph 0 = Inr (Some nd, n')"
    by (simp add: styledParagraph_def eval_defs)
  with f baseline_failure_gives_empty_styles [OF f, of styledParagraph STYLE_MODE SUPPORTED_PROPS "[]" 0]
  show ?thesis by blast
qed

section \<open>C6: the text of a clamped element\<close>

text \<open>
  C6 (as stated, refuted), at two clamped paragraphs. The text content
  \<open>'  Hello  '\<close> has no trailing dots, and the text property is \<open>'Hello'\<close>:
  \<open>getFullTextContent\<close> and \<open>handleTextNode\<close> trim the text. The text content \<open>'....'\<close>
  is empty once its dots are stripped, and \<open>handleTextNode\<close> returns without setting a
  text property (\<open>if (cleanText === '...' || cleanText === '') return\<close>).
\<close>

theorem text_property_counterexample:
  "hasTruncation (clampedParagraph ''  Hello  '')
   \<and> stripTrailingDots (textContent (clampedParagraph ''  Hello  '')) = ''  Hello  ''
   \<and> map_option (\<lambda>nd. props nd ''text'')
        (emitted (convertHTMLToComposableJSON pageHost [] (clampedParagraph ''  Hello  '') 0))
       = Some (Some (StringProp (Some ''Hello'')))
   \<and> hasTruncation (clampedParagraph ''....'')
   \<and> stripTrailingDots (textContent (clampedParagraph ''....'')) = []
   \<and> map_option (\<lambda>nd. props nd ''text'')
        (emitted (convertHTMLToComposableJSON pageHost [] (clampedParagraph ''....'') 0))
       = Some None"
  by (simp add: clampedParagraph_def eval_defs)

text \<open>
  C6 (amended): for every element that is converted in the default branch (not
  component-mapped, without a \<open>br\<close> child node, not an anchor, an \<open>svg\<close>, an \<open>img\<close> or a
  \<open>video\<close>) and has a text node among its child nodes, with or without a truncation
  indicator, the text read is the element's complete text content, trimmed; the text
  property of the emitted node is that text with a trailing run of three or more dots
  removed, and no text property is set when nothing is left. For the full text
  \<open>Lorem ipsum dolor sit amet consectetur\<close> the property is that text.
\<close>

theorem detruncated_text_property:
  assumes r: "convertHTMLToComposableJSON host ms (Element d cs) n = Inr (Some nd, n')"
    and nm: "appliedComponent (selectComponent (getAttribute (Element d cs) ''data-figma-id'') ms) = None"
    and nobr: "\<not> list_ex (\<lambda>c. toLowerCase (nodeName c) = ''br'') cs"
    and tag: "toLowerCase (tagName d) \<notin> set [''a'', ''svg'']"
    and media: "tagName d \<notin> set MEDIA_TAGS"
    and tx: "list_ex isTextNode cs"
  shows "getFullTextContent (Element d cs) = trim (textContent (Element d cs))
         \<and> props nd ''text''
             = (if stripTrailingDots (trim (textContent (Element d cs))) = [] then None
                else Some (StringProp (Some (stripTrailingDots (trim (textContent (Element d cs)))))))"
proof
  show "getFullTextContent (Element d cs) = trim (textContent (Element d cs))"
    by (rule getFullTextContent_trim)
next
  from r show "props nd ''text''
             = (if stripTrailingDots (trim (textContent (Element d cs))) = [] then None
                else Some (StringProp (Some (stripTrailingDots (trim (textContent (Element d cs)))))))"
  proof (cases rule: convert_cases)
    case (Mapped c)
    with nm show ?thesis by simp
  next
    case (LineBreak childProps pushes boxed)
    with nobr show ?thesis by simp
  next
    case Terminal
    with tag media getComponentName_not_RTE show ?thesis by auto
  next
    case (Default finalProps childList)
    from tag have na: "toLowerCase (tagName d) \<noteq> ''a''" by simp
    from processChildNodes_props [OF Default(5)] na tx
    have "finalProps = handleTextNode (getFullTextContent (Element d cs)) (linkProps (Element d cs)) []"
      by simp
    with Default(6) na show ?thesis
      by (simp only: props_addChildren_text node.sel getFullTextContent_trim)
         (rule handleTextNode_text, simp add: linkProps_no_text)
  qed
qed

text \<open>
  The paragraph of the example, with the class \<open>line-clamp-3\<close>, yields its full text; a
  text with trailing dots inside white space yields \<open>Read more\<close>.
\<close>

theorem detruncated_text_property_witness:
  "hasTruncation (clampedParagraph ''Lorem ipsum dolor sit amet consectetur'')
   \<and> map_option (\<lambda>nd. props nd ''text'')
        (emitted (convertHTMLToComposableJSON pageHost []
                    (clampedParagraph ''Lorem ipsum dolor sit amet consectetur'') 0))
       = Some (Some (StringProp (Some ''Lorem ipsum dolor sit amet consectetur'')))
   \<and> map_option (\<lambda>nd. props nd ''text'')
        (emitted (convertHTMLToComposableJSON pageHost [] (clampedParagraph '' Read more.... '') 0))
       = Some (Some (StringProp (Some ''Read more'')))"
proof -
  let ?d = "\<lparr>tagName = ''P'', attributes = [(''class'', ''teaser line-clamp-3'')],
             computedStyle = plainStyle, parentComputedStyle = Some plainStyle,
             styleOverflow = [], styleTextOverflow = []\<rparr>"
  have cp: "Element ?d [TextChild t] = clampedParagraph t" for t
    by (simp add: clampedParagraph_def htmlElement_def)
  have ht: "hasTruncation (clampedParagraph t)" for t
    by (simp add: clampedParagraph_def hasTruncation_def classList_def className_def getAttribute_def
        htmlElement_def isAsciiWhitespace_def)
  have ev: "\<exists>nd n'. convertHTMLToComposableJSON pageHost [] (Element ?d [TextChild t]) 0 = Inr (Some nd, n')" for t
    by (simp add: eval_defs del: handleTextNode_def getFullTextContent_def hasTruncation_def classList_def
        trim_def stripTrailingDots_def)
  have tc: "textContent (clampedParagraph t) = t" for t
    by (simp add: clampedParagraph_def htmlElement_def)
  have nm: "appliedComponent (selectComponent (getAttribute (Element ?d [TextChild t]) ''data-figma-id'') []) = None" for t
    by (simp add: getAttribute_def selectComponent_def appliedComponent_def)
  have nobr: "\<not> list_ex (\<lambda>c. toLowerCase (nodeName c) = ''br'') [TextChild t]" for t
    by (simp add: string_defs)
  have tag: "toLowerCase (tagName ?d) \<notin> set [''a'', ''svg'']"
    by (simp add: string_defs)
  have media: "tagName ?d \<notin> set MEDIA_TAGS"
    by (simp add: MEDIA_TAGS_def)
  have tx: "list_ex isTextNode [TextChild t]" for t
    by simp
  have main: "map_option (\<lambda>nd. props nd ''text'')
        (emitted (convertHTMLToComposableJSON pageHost [] (clampedParagraph t) 0))
       = Some (if stripTrailingDots (trim t) = [] then None
               else Some (StringProp (Some (stripTrailingDots (trim t)))))" for t
  proof -
    from ev [of t] obtain nd n' where
      r: "convertHTMLToComposableJSON pageHost [] (Element ?d [TextChild t]) 0 = Inr (Some nd, n')"
      by blast
    from detruncated_text_property [OF r nm nobr tag media tx] r
    show ?thesis
      unfolding cp by (simp add: emitted_def tc)
  qed
  have a: "stripTrailingDots (trim ''Lorem ipsum dolor sit amet consectetur'')
            = ''Lorem ipsum dolor sit amet consectetur''"
    by (simp add: string_defs)
  have b: "stripTrailingDots (trim '' Read more.... '') = ''Read more''"
    by (simp add: string_defs)
  from ht main [of "''Lorem ipsum dolor sit amet consectetur''"] main [of "'' Read more.... ''"]
  show ?thesis
    unfolding a b by simp
qed

section \<open>C7: child nodes, slots and the children property\<close>

text \<open>
  C7: every node of an emitted tree has child nodes if and only if its property
  \<open>children\<close> is a slot descriptor whose slot exists and is not empty; in particular an
  element without child nodes that is not component-mapped is converted to a node with
  empty \<open>slots\<close> and without a \<open>children\<close> property.
\<close>

theorem children_iff_slot_referenced:
  assumes r: "convertHTMLToComposableJSON host ms e n = Inr (Some nd, n')"
  shows "everyNode slotInvariant nd
         \<and> (childNodes e = []
              \<and> appliedComponent (selectComponent (getAttribute e ''data-figma-id'') ms) = None
            \<longrightarrow> slots nd = [] \<and> props nd ''children'' = None)"
proof
  from r show "everyNode slotInvariant nd" by (rule convert_invariant)
next
  obtain d cs where e: "e = Element d cs" by (cases e)
  show "childNodes e = []
          \<and> appliedComponent (selectComponent (getAttribute e ''data-figma-id'') ms) = None
        \<longrightarrow> slots nd = [] \<and> props nd ''children'' = None"
  proof
    assume a: "childNodes e = []
          \<and> appliedComponent (selectComponent (getAttribute e ''data-figma-id'') ms) = None"
    with e have cs: "cs = []" by simp
    from r [unfolded e] show "slots nd = [] \<and> props nd ''children'' = None"
    proof (cases rule: convert_cases)
      case (Mapped c)
      with a e show ?thesis by simp
    next
      case (LineBreak childProps pushes boxed)
      with cs show ?thesis by simp
    next
      case Terminal
      then show ?thesis by simp
    next
      case (Default finalProps childList)
      with cs show ?thesis by (auto simp: addChildren_def linkProps_no_children)
    qed
  qed
qed

text \<open>
  A \<open>div\<close> with two \<open>span\<close> children is converted to a node that has child nodes and a filled
  children slot, with the invariant at every node; an empty \<open>div\<close> to a node with empty
  slots and no \<open>children\<close> property.
\<close>

theorem children_iff_slot_referenced_witness:
  "(\<exists>nd n'. convertHTMLToComposableJSON pageHost [] twoSpans 0 = Inr (Some nd, n')
       \<and> everyNode slotInvariant nd \<and> hasChildNodes nd \<and> childrenSlotFilled nd)
   \<and> (\<exists>nd n'. convertHTMLToComposableJSON pageHost [] emptyDiv 0 = Inr (Some nd, n')
       \<and> slots nd = [] \<and> props nd ''children'' = None \<and> \<not> hasChildNodes nd)"
proof
  have "\<exists>nd n'. convertHTMLToComposableJSON pageHost [] twoSpans 0 = Inr (Some nd, n') \<and> hasChildNodes nd"
    by (simp add: twoSpans_def hasChildNodes_def eval_defs)
  then obtain nd n' where r: "convertHTMLToComposableJSON pageHost [] twoSpans 0 = Inr (Some nd, n')"
    and h: "hasChildNodes nd" by blast
  from children_iff_slot_referenced [OF r] have inv: "everyNode slotInvariant nd" ..
  then have "slotInvariant nd" by (cases nd) simp
  with h have "childrenSlotFilled nd" by (simp add: slotInvariant_def)
  with r h inv
  show "\<exists>nd n'. convertHTMLToComposableJSON pageHost [] twoSpans 0 = Inr (Some nd, n')
       \<and> everyNode slotInvariant nd \<and> hasChildNodes nd \<and> childrenSlotFilled nd"
    by blast
next
  have "\<exists>nd n'. convertHTMLToComposableJSON pageHost [] emptyDiv 0 = Inr (Some nd, n')"
    by (simp add: emptyDiv_def eval_defs)
  then obtain nd n' where r: "convertHTMLToComposableJSON pageHost [] emptyDiv 0 = Inr (Some nd, n')"
    by blast
  have pre: "childNodes emptyDiv = []
       \<and> appliedComponent (selectComponent (getAttribute emptyDiv ''data-figma-id'') []) = None"
    by (simp add: emptyDiv_def htmlElement_def getAttribute_def selectComponent_def appliedComponent_def)
  from children_iff_slot_referenced [OF r] pre
  have "slots nd = [] \<and> props nd ''children'' = None" by blast
  with r show "\<exists>nd n'. convertHTMLToComposableJSON pageHost [] emptyDiv 0 = Inr (Some nd, n')
       \<and> slots nd = [] \<and> props nd ''children'' = None \<and> \<not> hasChildNodes nd"
    by (auto simp: hasChildNodes_def)
qed

section \<open>C8: the type of an element with a line break among its child nodes\<close>

text \<open>
  C8 (as stated, refuted): \<open>breakOnly\<close> is a paragraph whose only child node is a \<open>br\<close>.
  It is not a rich-text component, the line-break branch runs, and the emitted node keeps
  the classifier's type \<open>text\<close>: the assignment \<open>elementJSON.type = 'box'\<close> stands inside the
  branch for text nodes, and the loop meets none.
\<close>

theorem line_break_without_text_counterexample:
  "list_ex (\<lambda>c. toLowerCase (nodeName c) = ''br'') (childNodes breakOnly)
   \<and> getComponentName breakOnly \<notin> set HTML_RTE_COMPONENTS
   \<and> map_option type (emitted (convertHTMLToComposableJSON pageHost [] breakOnly 0)) = Some ''text''"
  by (simp add: breakOnly_def eval_defs)

text \<open>
  C8 (amended): for every element that is not component-mapped and whose direct child
  nodes include a \<open>br\<close> node, the line-break branch runs (the classifier never returns a
  rich-text type); the emitted node's type is \<open>box\<close> when the child nodes also include a
  text node, and the classifier's verdict otherwise.
\<close>

theorem line_break_branch_type:
  assumes r: "convertHTMLToComposableJSON host ms (Element d cs) n = Inr (Some nd, n')"
    and nm: "appliedComponent (selectComponent (getAttribute (Element d cs) ''data-figma-id'') ms) = None"
    and br: "list_ex (\<lambda>c. toLowerCase (nodeName c) = ''br'') cs"
  shows "type nd = (if list_ex isTextNode cs then ''box'' else getComponentName (Element d cs))"
  using r
proof (cases rule: convert_cases)
  case (Mapped c)
  with nm show ?thesis by simp
next
  case (LineBreak childProps pushes boxed)
  from mergeLineBreaks_boxed [OF LineBreak(3)] LineBreak(4)
  show ?thesis by (simp add: type_addChildren)
next
  case Terminal
  with br getComponentName_not_RTE show ?thesis by blast
next
  case (Default finalProps childList)
  with br getComponentName_not_RTE show ?thesis by blast
qed

text \<open>
  \<open>twoLines\<close>, a paragraph with two text nodes around a \<open>br\<close>, becomes a \<open>box\<close>; \<open>breakOnly\<close>
  keeps the classifier's verdict.
\<close>

theorem line_break_branch_type_witness:
  "map_option type (emitted (convertHTMLToComposableJSON pageHost [] twoLines 0)) = Some ''box''
   \<and> map_option type (emitted (convertHTMLToComposableJSON pageHost [] breakOnly 0))
       = Some (getComponentName breakOnly)"
proof -
  let ?d = "\<lparr>tagName = ''P'', attributes = [], computedStyle = plainStyle,
            parentComputedStyle = Some plainStyle, styleOverflow = [], styleTextOverflow = []\<rparr>"
  let ?two = "[TextChild ''one'', ElementChild (htmlElement ''BR'' [] []), TextChild ''two'']"
  let ?one = "[ElementChild (htmlElement ''BR'' [] [])]"
  have two: "Element ?d ?two = twoLines" and one: "Element ?d ?one = breakOnly"
    by (simp_all add: twoLines_def breakOnly_def htmlElement_def)
  have nm: "appliedComponent (selectComponent (getAttribute (Element ?d cs) ''data-figma-id'') []) = None" for cs
    by (simp add: getAttribute_def selectComponent_def appliedComponent_def)
  have br2: "list_ex (\<lambda>c. toLowerCase (nodeName c) = ''br'') ?two"
    and br1: "list_ex (\<lambda>c. toLowerCase (nodeName c) = ''br'') ?one"
    by (simp_all add: htmlElement_def string_defs)
  obtain nd2 k2 where r2: "convertHTMLToComposableJSON pageHost [] (Element ?d ?two) 0 = Inr (Some nd2, k2)"
    using twoLines_eval unfolding two by blast
  have "\<exists>nd n'. convertHTMLToComposableJSON pageHost [] breakOnly 0 = Inr (Some nd, n')"
    by (simp add: breakOnly_def eval_defs)
  then obtain nd1 k1 where r1: "convertHTMLToComposableJSON pageHost [] (Element ?d ?one) 0 = Inr (Some nd1, k1)"
    unfolding one by blast
  from line_break_branch_type [OF r2 nm br2] line_break_branch_type [OF r1 nm br1] r1 r2
  show ?thesis
    unfolding one two by (simp add: emitted_def)
qed

section \<open>C9: the converter returns null for line breaks only\<close>

text \<open>
  C9: \<open>convertHTMLToComposableJSON\<close> returns \<open>null\<close> exactly when the tag name of its
  element is \<open>br\<close> in any letter case; for every other element it returns a node, unless
  an exception escapes. A \<open>null\<close> result for a child therefore always stands for a line
  break.
\<close>

theorem convert_null_iff_br:
  "(\<exists>n'. convertHTMLToComposableJSON host componentMappings e n = Inr (None, n'))
     = (toLowerCase (tagName (elementData e)) = ''br'')
   \<and> (toLowerCase (tagName (elementData e)) \<noteq> ''br'' \<longrightarrow>
        (\<exists>nd n'. convertHTMLToComposableJSON host componentMappings e n = Inr (Some nd, n'))
        \<or> (\<exists>err. convertHTMLToComposableJSON host componentMappings e n = Inl err))"
proof -
  have iff: "(\<exists>n'. convertHTMLToComposableJSON host componentMappings e n = Inr (None, n'))
     = (toLowerCase (tagName (elementData e)) = ''br'')"
    by (cases e) (auto simp: Let_def split: option.splits sum.splits prod.splits)
  show ?thesis
  proof (intro conjI impI)
    show "(\<exists>n'. convertHTMLToComposableJSON host componentMappings e n = Inr (None, n'))
     = (toLowerCase (tagName (elementData e)) = ''br'')"
      by (rule iff)
  next
    assume nb: "toLowerCase (tagName (elementData e)) \<noteq> ''br''"
    show "(\<exists>nd n'. convertHTMLToComposableJSON host componentMappings e n = Inr (Some nd, n'))
        \<or> (\<exists>err. convertHTMLToComposableJSON host componentMappings e n = Inl err)"
    proof (cases "convertHTMLToComposableJSON host componentMappings e n")
      case (Inl err)
      then show ?thesis by blast
    next
      case (Inr res)
      obtain x y where res: "res = (x, y)" by (cases res)
      show ?thesis
      proof (cases x)
        case None
        with Inr res iff nb show ?thesis by blast
      next
        case (Some nd)
        with Inr res show ?thesis by blast
      qed
    qed
  qed
qed

text \<open>
  A \<open>BR\<close> element gives \<open>null\<close>; an empty \<open>div\<close> does not.
\<close>

theorem convert_null_iff_br_witness:
  "(\<exists>n'. convertHTMLToComposableJSON pageHost [] (htmlElement ''BR'' [] []) 0 = Inr (None, n'))
   \<and> \<not> (\<exists>n'. convertHTMLToComposableJSON pageHost [] emptyDiv 0 = Inr (None, n'))
   \<and> (\<exists>nd n'. convertHTMLToComposableJSON pageHost [] emptyDiv 0 = Inr (Some nd, n'))"
proof -
  have br: "toLowerCase (tagName (elementData (htmlElement ''BR'' [] []))) = ''br''"
    by (simp add: htmlElement_def string_defs)
  have nb: "toLowerCase (tagName (elementData emptyDiv)) \<noteq> ''br''"
    by (simp add: emptyDiv_def htmlElement_def string_defs)
  have ne: "\<not> (\<exists>err. convertHTMLToComposableJSON pageHost [] emptyDiv 0 = Inl err)"
    by (simp add: emptyDiv_def eval_defs)
  from br nb ne convert_null_iff_br [of pageHost "[]" "htmlElement ''BR'' [] []" 0]
    convert_null_iff_br [of pageHost "[]" emptyDiv 0]
  show ?thesis by blast
qed

section \<open>C10: the inline style parser keeps the first two segments of a declaration\<close>

text \<open>
  C10: \<open>handleInlineStyles\<close> runs \<open>inlineDeclaration\<close> over the segments of the \<open>style\<close>
  attribute between semicolons. A declaration is split at every colon and only the first
  two segments are read: with \<open>a\<close> the text before the first colon and \<open>b\<close> the text between
  the first and the second colon (or the end), the declaration stores the trimmed \<open>b\<close>
  under the camel-cased trimmed \<open>a\<close> when both are not empty, and whatever follows a
  second colon is dropped. Nothing is stored for a declaration without a colon, and
  nothing under the property \<open>__proto__\<close>. Every value of the object returned for an element
  is therefore the trimmed second segment of one of the declarations of its \<open>style\<close>
  attribute, stored under the camel-cased trimmed first segment.
\<close>

theorem inline_style_first_two_segments:
  assumes a: "CHR '':'' \<notin> set a" and b: "CHR '':'' \<notin> set b"
  shows "inlineDeclaration acc (a @ '':'' @ b @ '':'' @ rest)
           = (if trim a \<noteq> [] \<and> trim b \<noteq> [] \<and> camel (trim a) \<noteq> ''__proto__''
              then acc(camel (trim a) \<mapsto> trim b) else acc)
         \<and> inlineDeclaration acc (a @ '':'' @ b)
           = (if trim a \<noteq> [] \<and> trim b \<noteq> [] \<and> camel (trim a) \<noteq> ''__proto__''
              then acc(camel (trim a) \<mapsto> trim b) else acc)
         \<and> inlineDeclaration acc a = acc
         \<and> (getAttribute e ''style'' = Some style \<longrightarrow>
              handleInlineStyles e = foldl inlineDeclaration Map.empty (splitOn (CHR '';'') style)
              \<and> (\<forall>key v. handleInlineStyles e key = Some v \<longrightarrow>
                    key \<noteq> ''__proto__'' \<and> v \<noteq> []
                    \<and> (\<exists>d \<in> set (splitOn (CHR '';'') style). \<exists>p q more.
                          splitOn (CHR '':'') d = p # q # more
                          \<and> camel (trim p) = key \<and> trim q = v)))"
proof (intro conjI impI allI)
  from a have a': "\<forall>x \<in> set a. \<not> x = CHR '':''" by auto
  from b have b': "\<forall>x \<in> set b. \<not> x = CHR '':''" by auto
  have "splitOn (CHR '':'') (a @ '':'' @ b @ '':'' @ rest) = a # b # splitOn (CHR '':'') rest"
    using splitBy_first [OF a', of "CHR '':''" "b @ '':'' @ rest"]
      splitBy_first [OF b', of "CHR '':''" rest]
    by (simp add: splitOn_def)
  then show "inlineDeclaration acc (a @ '':'' @ b @ '':'' @ rest)
           = (if trim a \<noteq> [] \<and> trim b \<noteq> [] \<and> camel (trim a) \<noteq> ''__proto__''
              then acc(camel (trim a) \<mapsto> trim b) else acc)"
    by (simp add: inlineDeclaration_def store_def)
  have "splitOn (CHR '':'') (a @ '':'' @ b) = [a, b]"
    using splitBy_first [OF a', of "CHR '':''" b] splitBy_none [OF b']
    by (simp add: splitOn_def)
  then show "inlineDeclaration acc (a @ '':'' @ b)
           = (if trim a \<noteq> [] \<and> trim b \<noteq> [] \<and> camel (trim a) \<noteq> ''__proto__''
              then acc(camel (trim a) \<mapsto> trim b) else acc)"
    by (simp add: inlineDeclaration_def store_def)
  have "splitOn (CHR '':'') a = [a]"
    using splitBy_none [OF a'] by (simp add: splitOn_def)
  then show "inlineDeclaration acc a = acc"
    by (simp add: inlineDeclaration_def)
next
  assume "getAttribute e ''style'' = Some style"
  then show h: "handleInlineStyles e = foldl inlineDeclaration Map.empty (splitOn (CHR '';'') style)"
    by (simp add: handleInlineStyles_def splitOn_def inlineDeclaration_def trim_def)
  fix key v
  assume "handleInlineStyles e key = Some v"
  with h have "foldl inlineDeclaration Map.empty (splitOn (CHR '';'') style) key = Some v"
    by simp
  from inline_fold_values [OF this]
  show "key \<noteq> ''__proto__''" and "v \<noteq> []"
    and "\<exists>d \<in> set (splitOn (CHR '';'') style). \<exists>p q more.
           splitOn (CHR '':'') d = p # q # more \<and> camel (trim p) = key \<and> trim q = v"
    by simp_all
qed

text \<open>
  For \<open>color: red; background: url(https://x.org/a.png)\<close> the stored background is
  \<open>url(https\<close>; the declaration \<open>__proto__: blue\<close> leaves the object as it was.
\<close>

theorem inline_style_first_two_segments_witness:
  "handleInlineStyles styledParagraph = [''color'' \<mapsto> ''red'', ''background'' \<mapsto> ''url(https'']
   \<and> inlineDeclaration [''color'' \<mapsto> ''red''] ''__proto__: blue'' = [''color'' \<mapsto> ''red'']"
proof -
  have attr: "getAttribute styledParagraph ''style''
                = Some ''color: red; background: url(https://x.org/a.png)''"
    by (simp add: styledParagraph_def htmlElement_def getAttribute_def)
  have split: "splitOn (CHR '';'') ''color: red; background: url(https://x.org/a.png)''
                = [''color: red'', '' background: url(https://x.org/a.png)'']"
    by (simp add: splitOn_def)
  have c1: "CHR '':'' \<notin> set ''color''" and c2: "CHR '':'' \<notin> set '' red''"
    and c3: "CHR '':'' \<notin> set '' background''" and c4: "CHR '':'' \<notin> set '' url(https''"
    and c5: "CHR '':'' \<notin> set ''__proto__''" and c6: "CHR '':'' \<notin> set '' blue''"
    by simp_all
  note first = inline_style_first_two_segments [OF c1 c2, of Map.empty "[]" styledParagraph
      "''color: red; background: url(https://x.org/a.png)''"]
  note second = inline_style_first_two_segments [OF c3 c4, of "[''color'' \<mapsto> ''red'']"
      "''//x.org/a.png)''" styledParagraph "''color: red; background: url(https://x.org/a.png)''"]
  note third = inline_style_first_two_segments [OF c5 c6, of "[''color'' \<mapsto> ''red'']"
      "[]" styledParagraph "''color: red; background: url(https://x.org/a.png)''"]
  have d1: "inlineDeclaration Map.empty ''color: red'' = [''color'' \<mapsto> ''red'']"
    using first by (simp add: trim_def isSpace_def)
  have d2: "inlineDeclaration [''color'' \<mapsto> ''red''] '' background: url(https://x.org/a.png)''
              = [''color'' \<mapsto> ''red'', ''background'' \<mapsto> ''url(https'']"
    using second by (simp add: trim_def isSpace_def)
  have d3: "inlineDeclaration [''color'' \<mapsto> ''red''] ''__proto__: blue'' = [''color'' \<mapsto> ''red'']"
    using third by (simp add: trim_def isSpace_def)
  from first attr have "handleInlineStyles styledParagraph
      = foldl inlineDeclaration Map.empty (splitOn (CHR '';'') ''color: red; background: url(https://x.org/a.png)'')"
    by blast
  then have "handleInlineStyles styledParagraph = [''color'' \<mapsto> ''red'', ''background'' \<mapsto> ''url(https'']"
    by (simp only: split foldl.simps d1 d2)
  with d3 show ?thesis by blast
qed

end
